theory Spec2Isabelle
  imports Complex_Main "HOL-Library.Multiset"
begin

section \<open>Numbers and tensors\<close>

text \<open>
  A float64 entry is either a finite number or one of the three non-finite values.
  Finite entries are idealised as reals: rounding and overflow are not modelled, and
  the sign of zero is ignored.
\<close>

datatype fval = Fin real | PosInf | NegInf | NaN

text \<open>Exceptions of the Python code that the model keeps as values.\<close>

datatype error = ZeroDivisionError | RuntimeError

text \<open>Sequencing: an exception of the first call skips the rest.\<close>

fun bindE :: "error + 'a \<Rightarrow> ('a \<Rightarrow> error + 'b) \<Rightarrow> error + 'b" where
  "bindE (Inl e) f = Inl e"
| "bindE (Inr x) f = f x"

text \<open>
  The argument of an update is a Python float (a tensor of shape \<open>()\<close> after
  \<open>torch.as_tensor\<close>) or a tensor, kept flattened: \<open>Tensor xs\<close> has shape
  \<open>(length xs,)\<close>. Sums run over all entries, so a tensor of higher rank and its
  flattening accumulate the same.
\<close>

datatype payload = Scalar fval | Tensor "fval list"

fun elems :: "payload \<Rightarrow> fval list" where
  "elems (Scalar x) = [x]"
| "elems (Tensor xs) = xs"

text \<open>
  \<open>torch.broadcast_to(weight, value.shape)\<close>: a scalar goes to any shape, a tensor
  of one entry to any one-dimensional shape, a tensor to its own shape; anything else
  raises.
\<close>

fun broadcast_to :: "payload \<Rightarrow> payload \<Rightarrow> error + fval list" where
  "broadcast_to (Scalar w) (Scalar v) = Inr [w]"
| "broadcast_to (Scalar w) (Tensor vs) = Inr (replicate (length vs) w)"
| "broadcast_to (Tensor ws) (Scalar v) = Inl RuntimeError"
| "broadcast_to (Tensor ws) (Tensor vs) =
     (if length ws = length vs then Inr ws
      else if length ws = 1 then Inr (replicate (length vs) (hd ws))
      else Inl RuntimeError)"

section \<open>The weighted-mean accumulator\<close>

record accumulator =
  mean_value :: real
  weight :: real

text \<open>
  Modelled from the spec: \<open>reset\<close> is inherited from the metrics library; it zeroes
  both running sums, which is also the state a metric is constructed with.
\<close>

definition reset :: "accumulator \<Rightarrow> accumulator" where
  "reset self = \<lparr>mean_value = 0, weight = 0\<rparr>"

fun finite_pair :: "fval \<times> fval \<Rightarrow> (real \<times> real) option" where
  "finite_pair (Fin a, Fin b) = Some (a, b)"
| "finite_pair _ = None"

text \<open>
  Modelled from the spec: \<open>_cast_and_nan_check_input\<close> is inherited from the
  aggregation base class of the metrics library and is not part of the sources. The
  spec says that non-finite entries (NaN/Inf) are filtered for value and weight
  together, position by position, without raising. The result holds the surviving
  values and the surviving weights, in order.
\<close>

definition cast_and_nan_check_input :: "fval list \<Rightarrow> fval list \<Rightarrow> real list \<times> real list" where
  "cast_and_nan_check_input x w =
     (let kept = List.map_filter finite_pair (zip x w) in (map fst kept, map snd kept))"

text \<open>\<open>NLL.update\<close> (lines 14-44).\<close>

definition NLL_update :: "accumulator \<Rightarrow> payload \<Rightarrow> payload \<Rightarrow> error + accumulator" where
  "NLL_update self val wgt =
     (case broadcast_to wgt val of
        Inl e \<Rightarrow> Inl e
      | Inr w \<Rightarrow>
          (case cast_and_nan_check_input (elems val) w of
             (v', w') \<Rightarrow>
               if length v' = 0 then Inr self
               else Inr (self\<lparr>mean_value := mean_value self + sum_list v',
                                weight := weight self + sum_list w'\<rparr>)))"

text \<open>Float division of two finite numbers: dividing by zero gives a non-finite value.\<close>

definition fdiv :: "real \<Rightarrow> real \<Rightarrow> fval" where
  "fdiv x y =
     (if y \<noteq> 0 then Fin (x / y)
      else if x = 0 then NaN else if 0 < x then PosInf else NegInf)"

fun fv_div :: "fval \<Rightarrow> real \<Rightarrow> fval" where
  "fv_div (Fin x) c = fdiv x c"
| "fv_div PosInf c = (if c < 0 then NegInf else PosInf)"
| "fv_div NegInf c = (if c < 0 then PosInf else NegInf)"
| "fv_div NaN c = NaN"

fun fv_exp :: "fval \<Rightarrow> fval" where
  "fv_exp (Fin x) = Fin (exp x)"
| "fv_exp PosInf = PosInf"
| "fv_exp NegInf = Fin 0"
| "fv_exp NaN = NaN"

definition LOG2 :: real where
  "LOG2 = ln 2"

text \<open>
  Modelled from the spec: \<open>NLL\<close> does not override \<open>compute\<close>; the inherited one
  returns the ratio of the two running sums.
\<close>

definition NLL_compute :: "accumulator \<Rightarrow> fval" where
  "NLL_compute self = fdiv (mean_value self) (weight self)"

text \<open>\<open>BPD.compute\<close> (line 54) and \<open>Perplexity.compute\<close> (line 64).\<close>

definition BPD_compute :: "accumulator \<Rightarrow> fval" where
  "BPD_compute self = fv_div (fdiv (mean_value self) (weight self)) LOG2"

definition Perplexity_compute :: "accumulator \<Rightarrow> fval" where
  "Perplexity_compute self = fv_exp (fdiv (mean_value self) (weight self))"

text \<open>A sequence of calls; the first exception ends it.\<close>

fun foldE :: "('s \<Rightarrow> 'a \<Rightarrow> error + 's) \<Rightarrow> 'a list \<Rightarrow> 's \<Rightarrow> error + 's" where
  "foldE f [] s = Inr s"
| "foldE f (x # xs) s = bindE (f s x) (foldE f xs)"

definition NLL_updates :: "accumulator \<Rightarrow> (payload \<times> payload) list \<Rightarrow> error + accumulator" where
  "NLL_updates self us = foldE (\<lambda>s (v, w). NLL_update s v w) us self"

section \<open>The metrics object\<close>

text \<open>
  A \<open>MetricCollection\<close> of the three metrics \<open>nll\<close>, \<open>bpd\<close> and \<open>ppl\<close>: an
  update of the collection updates each member with the same arguments.
\<close>

record collection =
  nll :: accumulator
  bpd :: accumulator
  ppl :: accumulator

definition collection_update :: "collection \<Rightarrow> payload \<Rightarrow> payload \<Rightarrow> error + collection" where
  "collection_update c v w =
     bindE (NLL_update (nll c) v w) (\<lambda>a.
     bindE (NLL_update (bpd c) v w) (\<lambda>b.
     bindE (NLL_update (ppl c) v w) (\<lambda>p.
       Inr \<lparr>nll = a, bpd = b, ppl = p\<rparr>)))"

definition collection_reset :: "collection \<Rightarrow> collection" where
  "collection_reset c = \<lparr>nll = reset (nll c), bpd = reset (bpd c), ppl = reset (ppl c)\<rparr>"

text \<open>
  The fields of \<open>Metrics\<close> (lines 68-85) that the methods below read or write.
  \<open>eos_token_id\<close> stands for \<open>self.tokenizer.eos_token_id\<close>.
\<close>

record metrics =
  train_nlls :: collection
  train_recons :: accumulator
  valid_nlls :: collection
  valid_recons :: accumulator
  gen_ppl :: accumulator
  sample_entropy :: accumulator
  eval_ppl_batch_size :: int
  eos_token_id :: int

text \<open>
  \<open>Metrics.__init__\<close> (lines 68-85): every accumulator starts from zero; the batch
  size and the end token of the tokenizer are given.
\<close>

definition Metrics_init :: "int \<Rightarrow> int \<Rightarrow> metrics" where
  "Metrics_init batch_size eos =
     \<lparr>train_nlls = \<lparr>nll = \<lparr>mean_value = 0, weight = 0\<rparr>,
                     bpd = \<lparr>mean_value = 0, weight = 0\<rparr>,
                     ppl = \<lparr>mean_value = 0, weight = 0\<rparr>\<rparr>,
      train_recons = \<lparr>mean_value = 0, weight = 0\<rparr>,
      valid_nlls = \<lparr>nll = \<lparr>mean_value = 0, weight = 0\<rparr>,
                     bpd = \<lparr>mean_value = 0, weight = 0\<rparr>,
                     ppl = \<lparr>mean_value = 0, weight = 0\<rparr>\<rparr>,
      valid_recons = \<lparr>mean_value = 0, weight = 0\<rparr>,
      gen_ppl = \<lparr>mean_value = 0, weight = 0\<rparr>,
      sample_entropy = \<lparr>mean_value = 0, weight = 0\<rparr>,
      eval_ppl_batch_size = batch_size,
      eos_token_id = eos\<rparr>"

text \<open>\<open>Metrics.reset\<close> (lines 95-101).\<close>

definition Metrics_reset :: "metrics \<Rightarrow> metrics" where
  "Metrics_reset self =
     self\<lparr>gen_ppl := reset (gen_ppl self),
          sample_entropy := reset (sample_entropy self),
          train_nlls := collection_reset (train_nlls self),
          train_recons := reset (train_recons self),
          valid_nlls := collection_reset (valid_nlls self),
          valid_recons := reset (valid_recons self)\<rparr>"

text \<open>\<open>Metrics.update_train\<close> and \<open>Metrics.update_valid\<close> (lines 103-109).\<close>

definition update_train :: "metrics \<Rightarrow> payload \<Rightarrow> payload \<Rightarrow> payload \<Rightarrow> error + metrics" where
  "update_train self nll_v recons_loss num_tokens =
     bindE (collection_update (train_nlls self) nll_v num_tokens) (\<lambda>c.
     bindE (NLL_update (train_recons self) recons_loss num_tokens) (\<lambda>r.
       Inr (self\<lparr>train_nlls := c, train_recons := r\<rparr>)))"

definition update_valid :: "metrics \<Rightarrow> payload \<Rightarrow> payload \<Rightarrow> payload \<Rightarrow> error + metrics" where
  "update_valid self nll_v recons_loss num_tokens =
     bindE (collection_update (valid_nlls self) nll_v num_tokens) (\<lambda>c.
     bindE (NLL_update (valid_recons self) recons_loss num_tokens) (\<lambda>r.
       Inr (self\<lparr>valid_nlls := c, valid_recons := r\<rparr>)))"

section \<open>Sample entropy\<close>

text \<open>
  Modelled from the spec: \<open>sample_entropy\<close> is a plain \<open>MeanMetric\<close> of the metrics
  library, whose \<open>update\<close> is not part of the sources. Called with one value and the
  default weight \<open>1.0\<close> it keeps an unweighted running mean: after the filter above,
  the value times its weight goes to the running sum and the weight to the running
  count.
\<close>

definition MeanMetric_update :: "accumulator \<Rightarrow> fval \<Rightarrow> error + accumulator" where
  "MeanMetric_update self x =
     (case cast_and_nan_check_input [x] [Fin 1] of
        (v', w') \<Rightarrow>
          if length v' = 0 then Inr self
          else Inr (self\<lparr>mean_value := mean_value self + sum_list (map2 (*) v' w'),
                           weight := weight self + sum_list w'\<rparr>))"

text \<open>
  The counts of \<open>torch.unique(sample, return_counts=True, sorted=False)\<close>: one
  count for each distinct token (the order is left open by \<open>sorted=False\<close>).
\<close>

definition unique_counts :: "int list \<Rightarrow> nat list" where
  "unique_counts sample = map (count_list sample) (remdups sample)"

text \<open>\<open>torch.special.entr\<close>, elementwise.\<close>

definition entr :: "real \<Rightarrow> fval" where
  "entr p = (if 0 < p then Fin (- p * ln p) else if p = 0 then Fin 0 else NegInf)"

fun fv_add :: "fval \<Rightarrow> fval \<Rightarrow> fval" where
  "fv_add (Fin a) (Fin b) = Fin (a + b)"
| "fv_add NaN _ = NaN"
| "fv_add _ NaN = NaN"
| "fv_add PosInf NegInf = NaN"
| "fv_add NegInf PosInf = NaN"
| "fv_add PosInf _ = PosInf"
| "fv_add _ PosInf = PosInf"
| "fv_add NegInf _ = NegInf"
| "fv_add _ NegInf = NegInf"

definition fv_sum :: "fval list \<Rightarrow> fval" where
  "fv_sum xs = foldl fv_add (Fin 0) xs"

text \<open>The entropy of one sample (lines 157-160).\<close>

definition entropy :: "int list \<Rightarrow> fval" where
  "entropy sample =
     (let counts = unique_counts sample
      in fv_sum (map (\<lambda>c. entr (real c / real (sum_list counts))) counts))"

text \<open>\<open>Metrics.record_entropy\<close> (lines 155-161).\<close>

definition record_entropy :: "metrics \<Rightarrow> int list list \<Rightarrow> error + metrics" where
  "record_entropy self tokens =
     foldE (\<lambda>m sample.
              bindE (MeanMetric_update (sample_entropy m) (entropy sample))
                (\<lambda>a. Inr (m\<lparr>sample_entropy := a\<rparr>)))
           tokens self"

text \<open>
  The Shannon entropy, in nats, of the empirical distribution of the tokens of a
  sample, as the spec words it: each distinct token has probability its count
  divided by the length of the sample.
\<close>

definition shannon_entropy :: "int list \<Rightarrow> real" where
  "shannon_entropy sample =
     - (\<Sum>v\<in>set sample.
          (real (count_list sample v) / real (length sample))
            * ln (real (count_list sample v) / real (length sample)))"


section \<open>Generative perplexity\<close>

text \<open>
  A batch of token ids or of attention-mask entries is a list of rows of one length.
  \<open>ncols\<close> is the size of the last dimension.
\<close>

definition ncols :: "'a list list \<Rightarrow> nat" where
  "ncols rows = (case rows of [] \<Rightarrow> 0 | r # _ \<Rightarrow> length r)"

text \<open>
  \<open>torch.split(rows, c, dim=-1)\<close>: pieces of \<open>c\<close> columns, the last one possibly
  shorter; at least one piece; a split size of zero raises unless there is no column.
\<close>

definition split_last :: "nat \<Rightarrow> 'a list list \<Rightarrow> error + 'a list list list" where
  "split_last c rows =
     (if c = 0 then (if ncols rows = 0 then Inr [rows] else Inl RuntimeError)
      else Inr (map (\<lambda>k. map (\<lambda>r. take c (drop (k * c) r)) rows)
                  [0..<max 1 ((ncols rows + c - 1) div c)]))"

text \<open>\<open>cumsum(-1)\<close> of one row.\<close>

fun cumsum_from :: "nat \<Rightarrow> nat list \<Rightarrow> nat list" where
  "cumsum_from a [] = []"
| "cumsum_from a (x # xs) = (a + x) # cumsum_from (a + x) xs"

definition cumsum :: "nat list \<Rightarrow> nat list" where
  "cumsum xs = cumsum_from 0 xs"

text \<open>
  The masks of lines 205-209, for one row of a chunk. On boolean tensors \<open>+\<close> is
  the disjunction.
\<close>

definition first_eos :: "int \<Rightarrow> int list \<Rightarrow> bool list" where
  "first_eos eos row = map (\<lambda>c. c = 1) (cumsum (map (\<lambda>t. if t = eos then 1 else 0) row))"

definition token_mask :: "int \<Rightarrow> int list \<Rightarrow> bool list" where
  "token_mask eos row = map (\<lambda>t. t \<noteq> eos) row"

definition valid_tokens :: "int \<Rightarrow> int list \<Rightarrow> bool list" where
  "valid_tokens eos row = map2 (\<or>) (drop 1 (first_eos eos row)) (drop 1 (token_mask eos row))"

text \<open>
  The reference model and the cross entropy (lines 199-204) are taken as a parameter:
  \<open>score sample_chunk attn_mask_chunk r t\<close> is the loss, in row \<open>r\<close>, of
  predicting the token at position \<open>t + 1\<close>. With \<open>reduction='none'\<close> there is one
  loss for each position of \<open>sample_chunk[..., 1:]\<close>.
\<close>

type_synonym scorer = "int list list \<Rightarrow> int list list \<Rightarrow> nat \<Rightarrow> nat \<Rightarrow> fval"

definition nlls_of :: "scorer \<Rightarrow> int list list \<Rightarrow> int list list \<Rightarrow> fval list list" where
  "nlls_of score sample_chunk attn_mask_chunk =
     map (\<lambda>r. map (score sample_chunk attn_mask_chunk r) [0..<length (sample_chunk ! r) - 1])
       [0..<length sample_chunk]"

text \<open>A float times a boolean, and a boolean cast to a float.\<close>

fun fv_mul_mask :: "fval \<Rightarrow> bool \<Rightarrow> fval" where
  "fv_mul_mask x True = x"
| "fv_mul_mask (Fin x) False = Fin 0"
| "fv_mul_mask _ False = NaN"

definition mask_val :: "bool \<Rightarrow> fval" where
  "mask_val b = Fin (if b then 1 else 0)"

text \<open>The body of the inner loop (lines 199-210), on the accumulator \<open>gen_ppl\<close>.\<close>

definition score_chunk ::
  "scorer \<Rightarrow> int \<Rightarrow> accumulator \<Rightarrow> int list list \<times> int list list \<Rightarrow> error + accumulator" where
  "score_chunk score eos acc ch =
     (case ch of (sample_chunk, attn_mask_chunk) \<Rightarrow>
        (let nlls = nlls_of score sample_chunk attn_mask_chunk;
             valid = map (valid_tokens eos) sample_chunk
         in NLL_update acc
              (Tensor (concat (map2 (map2 fv_mul_mask) nlls valid)))
              (Tensor (concat (map (map mask_val) valid)))))"

text \<open>The body of the outer loop (lines 189-210) for group \<open>i\<close>.\<close>

definition score_group ::
  "scorer \<Rightarrow> int \<Rightarrow> nat \<Rightarrow> int list list \<Rightarrow> int list list \<Rightarrow> nat \<Rightarrow> accumulator \<Rightarrow> nat
     \<Rightarrow> error + accumulator" where
  "score_group score eos eval_context_size samples attn_mask batch_size acc i =
     bindE (split_last eval_context_size
              (take batch_size (drop (i * batch_size) samples))) (\<lambda>samples'.
     bindE (split_last eval_context_size
              (take batch_size (drop (i * batch_size) attn_mask))) (\<lambda>attn_mask'.
       foldE (score_chunk score eos) (zip samples' attn_mask') acc))"

text \<open>
  \<open>Metrics.record_generative_perplexity\<close> from line 185 on: \<open>samples\<close>,
  \<open>attn_mask\<close> and \<open>eval_context_size\<close> are what lines 177-184 produce (the
  tokenizer is not modelled). \<open>//\<close> on Python integers is the floor division, as
  \<open>div\<close> on \<open>int\<close>, but raises on a zero divisor; \<open>range\<close> of a number below one
  is empty.
\<close>

definition record_generative_perplexity ::
  "scorer \<Rightarrow> metrics \<Rightarrow> int list list \<Rightarrow> int list list \<Rightarrow> nat \<Rightarrow> error + metrics" where
  "record_generative_perplexity score self samples attn_mask eval_context_size =
     (let batch_size = min (eval_ppl_batch_size self) (int (length samples))
      in if batch_size = 0 then Inl ZeroDivisionError
         else
           (let num_batches = int (length samples) div batch_size
            in bindE (foldE (score_group score (eos_token_id self) eval_context_size
                               samples attn_mask (nat batch_size))
                        [0..<nat num_batches] (gen_ppl self))
                 (\<lambda>acc. Inr (self\<lparr>gen_ppl := acc\<rparr>))))"


section \<open>Notions used to state the properties\<close>

fun is_finite :: "fval \<Rightarrow> bool" where
  "is_finite (Fin x) = True"
| "is_finite _ = False"

fun negative :: "fval \<Rightarrow> bool" where
  "negative (Fin x) = (x < 0)"
| "negative NegInf = True"
| "negative _ = False"

text \<open>
  The (value, weight) pairs of one call of \<open>update\<close>, after broadcasting, and the
  pairs of a sequence of calls that survive the filter: the paired-valid index set.
\<close>

definition paired :: "payload \<times> payload \<Rightarrow> (fval \<times> fval) list" where
  "paired u =
     (case broadcast_to (snd u) (fst u) of Inl e \<Rightarrow> [] | Inr w \<Rightarrow> zip (elems (fst u)) w)"

definition valid_pairs :: "(payload \<times> payload) list \<Rightarrow> (real \<times> real) list" where
  "valid_pairs us = List.map_filter finite_pair (concat (map paired us))"


text \<open>
  A position \<open>t\<close> of a chunk row that counts: it is not the first position of the
  chunk, and its token is not the end token or is the first end token of the chunk.
\<close>

definition kept_position :: "int \<Rightarrow> int list \<Rightarrow> nat \<Rightarrow> bool" where
  "kept_position eos ch t =
     (1 \<le> t \<and> t < length ch \<and> (ch ! t \<noteq> eos \<or> count_list (take (Suc t) ch) eos = 1))"

text \<open>
  The number of such positions in the rows of one chunk, and the sum of the losses at
  them (the loss with index \<open>t - 1\<close> is the one of predicting the token at \<open>t\<close>).
\<close>

definition kept_count :: "int \<Rightarrow> int list list \<Rightarrow> nat" where
  "kept_count eos sample_chunk =
     sum_list (map (\<lambda>row. length (filter (kept_position eos row) [0..<length row])) sample_chunk)"

definition kept_loss_sum ::
  "(int list list \<Rightarrow> int list list \<Rightarrow> nat \<Rightarrow> nat \<Rightarrow> real) \<Rightarrow> int
     \<Rightarrow> int list list \<times> int list list \<Rightarrow> real" where
  "kept_loss_sum loss eos ch =
     (case ch of (sample_chunk, attn_mask_chunk) \<Rightarrow>
        sum_list (map (\<lambda>r. sum_list (map (\<lambda>t. loss sample_chunk attn_mask_chunk r (t - 1))
                               (filter (kept_position eos (sample_chunk ! r))
                                  [0..<length (sample_chunk ! r)])))
                    [0..<length sample_chunk]))"

text \<open>
  The number of such positions in one sample, summed over the pieces of \<open>c\<close> tokens
  the sample is cut into.
\<close>

definition row_chunks :: "nat \<Rightarrow> nat \<Rightarrow> int list \<Rightarrow> int list list" where
  "row_chunks c L row = map (\<lambda>k. take c (drop (k * c) row)) [0..<max 1 ((L + c - 1) div c)]"

definition valid_count :: "int \<Rightarrow> nat \<Rightarrow> int list \<Rightarrow> nat" where
  "valid_count eos c row =
     sum_list (map (\<lambda>ch. length (filter (kept_position eos ch) [0..<length ch]))
                 (row_chunks c (length row) row))"

text \<open>
  The count that the spec names for one sample: the positions that are not padding
  (attention mask other than \<open>0\<close>) and do not hold an end token after the first end
  token of the sample.
\<close>

definition claimed_valid_count :: "int \<Rightarrow> int list \<Rightarrow> int list \<Rightarrow> nat" where
  "claimed_valid_count eos row attn =
     length (filter (\<lambda>t. attn ! t \<noteq> 0 \<and> (row ! t \<noteq> eos \<or> count_list (take (Suc t) row) eos = 1))
               [0..<length row])"

section \<open>Properties of the accumulator\<close>

lemma chk_lengths: "cast_and_nan_check_input x w = (v', w') \<Longrightarrow> length v' = length w'"
  by (auto simp: cast_and_nan_check_input_def Let_def)

lemma NLL_update_eq:
  "NLL_update self v w =
     bindE (broadcast_to w v) (\<lambda>wb.
       Inr (self\<lparr>mean_value := mean_value self + sum_list (map fst (List.map_filter finite_pair (zip (elems v) wb))),
                weight := weight self + sum_list (map snd (List.map_filter finite_pair (zip (elems v) wb)))\<rparr>))"
  by (cases "broadcast_to w v")
     (auto simp: NLL_update_def cast_and_nan_check_input_def Let_def)

lemma NLL_update_paired:
  "\<not> isl (broadcast_to (snd u) (fst u)) \<Longrightarrow>
   NLL_update self (fst u) (snd u) =
     Inr (self\<lparr>mean_value := mean_value self + sum_list (map fst (List.map_filter finite_pair (paired u))),
              weight := weight self + sum_list (map snd (List.map_filter finite_pair (paired u)))\<rparr>)"
  by (cases "broadcast_to (snd u) (fst u)") (auto simp: NLL_update_eq paired_def)

lemma map_filter_append: "List.map_filter f (xs @ ys) = List.map_filter f xs @ List.map_filter f ys"
  by (simp add: List.map_filter_def)

lemma NLL_updates_Cons:
  "NLL_updates self (u # us) = bindE (NLL_update self (fst u) (snd u)) (\<lambda>s. NLL_updates s us)"
  by (cases u) (simp add: NLL_updates_def)

lemma NLL_updates_sums:
  "\<forall>u\<in>set us. \<not> isl (broadcast_to (snd u) (fst u)) \<Longrightarrow>
   NLL_updates self us =
     Inr (self\<lparr>mean_value := mean_value self + sum_list (map fst (valid_pairs us)),
              weight := weight self + sum_list (map snd (valid_pairs us))\<rparr>)"
proof (induction us arbitrary: self)
  case Nil
  show ?case by (simp add: NLL_updates_def valid_pairs_def List.map_filter_def)
next
  case (Cons u us)
  have u: "\<not> isl (broadcast_to (snd u) (fst u))" using Cons.prems by simp
  have rest: "\<forall>u\<in>set us. \<not> isl (broadcast_to (snd u) (fst u))" using Cons.prems by simp
  have vp: "valid_pairs (u # us) = List.map_filter finite_pair (paired u) @ valid_pairs us"
    by (simp add: valid_pairs_def map_filter_append)
  show ?case
    by (simp add: NLL_updates_Cons NLL_update_paired[OF u] Cons.IH[OF rest] vp add.assoc)
qed

lemma sum_map_filter_mset:
  "sum_list (map g (List.map_filter f xs)) =
   sum_mset (image_mset (\<lambda>x. g (the (f x))) (filter_mset (\<lambda>x. f x \<noteq> None) (mset xs)))"
proof -
  have "sum_list (map g (List.map_filter f xs)) = sum_mset (mset (map g (List.map_filter f xs)))"
    by (simp only: sum_mset_sum_list)
  also have "\<dots> = sum_mset (image_mset (\<lambda>x. g (the (f x))) (filter_mset (\<lambda>x. f x \<noteq> None) (mset xs)))"
    by (simp add: List.map_filter_def comp_def)
  finally show ?thesis .
qed

lemma valid_pairs_mset:
  "mset (concat (map paired us)) = mset (concat (map paired us')) \<Longrightarrow>
   sum_list (map (g :: real \<times> real \<Rightarrow> real) (valid_pairs us)) = sum_list (map g (valid_pairs us'))"
  by (simp only: valid_pairs_def sum_map_filter_mset)

text \<open>
  Claim C1, as the code has it. \<open>NLL.update\<close> adds \<open>value.sum()\<close>, not the sum of
  the products of values and weights. For every sequence of update calls that do not
  raise, started from the reset state, \<open>compute()\<close> is the sum of the values divided
  by the sum of the weights, both over the paired-valid index set; any other sequence
  of calls with the same pairs (in another order, or batched in another way) ends in
  the same state.
\<close>

theorem NLL_updates_ratio_of_sums:
  assumes "\<forall>u\<in>set us. \<not> isl (broadcast_to (snd u) (fst u))"
  shows "\<exists>self'. NLL_updates (reset self) us = Inr self'
           \<and> NLL_compute self' =
               fdiv (sum_list (map fst (valid_pairs us))) (sum_list (map snd (valid_pairs us)))
           \<and> (\<forall>us'. (\<forall>u\<in>set us'. \<not> isl (broadcast_to (snd u) (fst u)))
                    \<and> mset (concat (map paired us')) = mset (concat (map paired us))
                  \<longrightarrow> NLL_updates (reset self) us' = Inr self')"
proof -
  let ?s = "\<lparr>mean_value = sum_list (map fst (valid_pairs us)),
             weight = sum_list (map snd (valid_pairs us))\<rparr>"
  have run: "NLL_updates (reset self) us = Inr ?s"
    by (simp add: NLL_updates_sums[OF assms] reset_def)
  have ratio: "NLL_compute ?s =
      fdiv (sum_list (map fst (valid_pairs us))) (sum_list (map snd (valid_pairs us)))"
    by (simp add: NLL_compute_def)
  have other: "NLL_updates (reset self) us' = Inr ?s"
    if ok: "\<forall>u\<in>set us'. \<not> isl (broadcast_to (snd u) (fst u))"
    and same: "mset (concat (map paired us')) = mset (concat (map paired us))" for us'
    by (simp add: NLL_updates_sums[OF ok] reset_def
          valid_pairs_mset[OF same, of fst] valid_pairs_mset[OF same, of snd])
  show ?thesis using run ratio other by blast
qed

text \<open>
  Claim C1, witness: the updates \<open>(2, 1)\<close> and \<open>(4, 3)\<close> give the mean
  \<open>(2 + 4) / (1 + 3)\<close>, and so does one batched call with the same pairs in the
  other order and one pair that the filter drops.
\<close>

theorem NLL_updates_ratio_of_sums_witness:
  "NLL_updates (reset \<lparr>mean_value = 7, weight = 9\<rparr>)
      [(Scalar (Fin 2), Scalar (Fin 1)), (Scalar (Fin 4), Scalar (Fin 3))]
     = Inr \<lparr>mean_value = 6, weight = 4\<rparr>
   \<and> NLL_compute \<lparr>mean_value = 6, weight = 4\<rparr> = Fin ((2 + 4) / (1 + 3))
   \<and> NLL_updates (reset \<lparr>mean_value = 7, weight = 9\<rparr>)
        [(Tensor [Fin 4, NaN, Fin 2], Tensor [Fin 3, Fin 5, Fin 1])]
     = Inr \<lparr>mean_value = 6, weight = 4\<rparr>"
proof -
  let ?us = "[(Scalar (Fin 2), Scalar (Fin 1)), (Scalar (Fin 4), Scalar (Fin 3))]"
  let ?us' = "[(Tensor [Fin 4, NaN, Fin 2], Tensor [Fin 3, Fin 5, Fin 1])]"
  have ok: "\<forall>u\<in>set ?us. \<not> isl (broadcast_to (snd u) (fst u))" by simp
  have ok': "\<forall>u\<in>set ?us'. \<not> isl (broadcast_to (snd u) (fst u))" by simp
  have vp: "valid_pairs ?us = [(2, 1), (4, 3)]"
    by (simp add: valid_pairs_def paired_def List.map_filter_def)
  have vp': "valid_pairs ?us' = [(4, 3), (2, 1)]"
    by (simp add: valid_pairs_def paired_def List.map_filter_def)
  from NLL_updates_ratio_of_sums[OF ok, of "\<lparr>mean_value = 7, weight = 9\<rparr>"]
  obtain s where
    run: "NLL_updates (reset \<lparr>mean_value = 7, weight = 9\<rparr>) ?us = Inr s"
    and ratio: "NLL_compute s = fdiv (sum_list (map fst (valid_pairs ?us))) (sum_list (map snd (valid_pairs ?us)))"
    by blast
  have s: "s = \<lparr>mean_value = 6, weight = 4\<rparr>"
    using run by (simp add: NLL_updates_sums[OF ok] vp reset_def)
  have r': "NLL_updates (reset \<lparr>mean_value = 7, weight = 9\<rparr>) ?us' = Inr \<lparr>mean_value = 6, weight = 4\<rparr>"
    by (simp add: NLL_updates_sums[OF ok'] vp' reset_def)
  show ?thesis using run ratio s r' by (simp add: vp fdiv_def)
qed

text \<open>
  Claim C1, counterexample: after the updates \<open>(value = 2, weight = 1)\<close> and
  \<open>(value = 4, weight = 3)\<close> the computed mean is \<open>3 / 2\<close> and not
  \<open>(2 * 1 + 4 * 3) / (1 + 3)\<close>.
\<close>

theorem NLL_weighted_mean_counterexample:
  "NLL_updates \<lparr>mean_value = 0, weight = 0\<rparr>
      [(Scalar (Fin 2), Scalar (Fin 1)), (Scalar (Fin 4), Scalar (Fin 3))]
     = Inr \<lparr>mean_value = 6, weight = 4\<rparr>
   \<and> NLL_compute \<lparr>mean_value = 6, weight = 4\<rparr> = Fin (3 / 2)
   \<and> NLL_compute \<lparr>mean_value = 6, weight = 4\<rparr> \<noteq> Fin ((2 * 1 + 4 * 3) / (1 + 3))"
  by (simp add: NLL_updates_def NLL_update_eq List.map_filter_def NLL_compute_def fdiv_def)

text \<open>
  Claim C2: one call of \<open>update\<close> whose broadcast succeeds adds the sum of the
  surviving values and the sum of the surviving weights, which are taken at the same
  positions, to the two running sums; \<open>compute()\<close> then returns the ratio of the
  totals.
\<close>

theorem NLL_update_adds_sums: 
  assumes "broadcast_to w v = Inr wb"
      and "cast_and_nan_check_input (elems v) wb = (v', w')"
  shows "\<exists>self'. NLL_update self v w = Inr self'
           \<and> mean_value self' = mean_value self + sum_list v'
           \<and> weight self' = weight self + sum_list w'
           \<and> length v' = length w'
           \<and> NLL_compute self' = fdiv (mean_value self + sum_list v') (weight self + sum_list w')"
  using assms chk_lengths[OF assms(2)]
  by (auto simp: NLL_update_def NLL_compute_def)

text \<open>Claim C2, witness: a scalar weight broadcast over three values, one of them NaN.\<close>

theorem NLL_update_adds_sums_witness:
  "broadcast_to (Scalar (Fin 2)) (Tensor [Fin 3, NaN, Fin 5]) = Inr [Fin 2, Fin 2, Fin 2]
   \<and> cast_and_nan_check_input (elems (Tensor [Fin 3, NaN, Fin 5])) [Fin 2, Fin 2, Fin 2] = ([3, 5], [2, 2])
   \<and> (\<exists>self'. NLL_update \<lparr>mean_value = 1, weight = 1\<rparr> (Tensor [Fin 3, NaN, Fin 5]) (Scalar (Fin 2)) = Inr self'
         \<and> mean_value self' = 9 \<and> weight self' = 5 \<and> NLL_compute self' = Fin (9 / 5))"
proof -
  have b: "broadcast_to (Scalar (Fin 2)) (Tensor [Fin 3, NaN, Fin 5]) = Inr [Fin 2, Fin 2, Fin 2]"
    by (simp add: numeral_3_eq_3)
  have c: "cast_and_nan_check_input (elems (Tensor [Fin 3, NaN, Fin 5])) [Fin 2, Fin 2, Fin 2] = ([3, 5], [2, 2])"
    by (simp add: cast_and_nan_check_input_def List.map_filter_def)
  show ?thesis
    using NLL_update_adds_sums[OF b c, of "\<lparr>mean_value = 1, weight = 1\<rparr>"] b c
    by (auto simp: fdiv_def)
qed

lemma finite_pair_None: "finite_pair (a, b) = None \<longleftrightarrow> \<not> is_finite a \<or> \<not> is_finite b"
  by (cases a; cases b) simp_all

lemma map_filter_finite_id:
  "List.map_filter finite_pair (zip (map (Fin \<circ> fst) ps) (map (Fin \<circ> snd) ps)) = ps"
  by (induction ps) (auto simp: List.map_filter_def)

lemma zip_remove_nth:
  assumes "length v = length w" and "i < length v"
  shows "zip v w = zip (take i v) (take i w) @ (v ! i, w ! i) # zip (drop (Suc i) v) (drop (Suc i) w)"
proof -
  have "zip v w = take i (zip v w) @ (zip v w) ! i # drop (Suc i) (zip v w)"
    by (rule id_take_nth_drop) (use assms in simp)
  then show ?thesis using assms by (simp add: take_zip drop_zip)
qed

lemma map_filter_remove_nth:
  assumes "length v = length w" and "i < length v"
      and "\<not> is_finite (v ! i) \<or> \<not> is_finite (w ! i)"
  shows "List.map_filter finite_pair (zip (take i v @ drop (Suc i) v) (take i w @ drop (Suc i) w))
         = List.map_filter finite_pair (zip v w)"
proof -
  have none: "finite_pair (v ! i, w ! i) = None"
    using assms(3) by (simp add: finite_pair_None)
  have "zip (take i v @ drop (Suc i) v) (take i w @ drop (Suc i) w)
        = zip (take i v) (take i w) @ zip (drop (Suc i) v) (drop (Suc i) w)"
    using assms(1) by simp
  then show ?thesis
    using none by (simp add: zip_remove_nth[OF assms(1,2)] map_filter_append List.map_filter_def)
qed

lemma NLL_update_Tensor:
  "length v = length w \<Longrightarrow>
   NLL_update self (Tensor v) (Tensor w) =
     Inr (self\<lparr>mean_value := mean_value self + sum_list (map fst (List.map_filter finite_pair (zip v w))),
              weight := weight self + sum_list (map snd (List.map_filter finite_pair (zip v w)))\<rparr>)"
  by (simp add: NLL_update_eq)

lemma map_filter_all_None:
  "(\<forall>x\<in>set xs. f x = None) \<Longrightarrow> List.map_filter f xs = []"
  by (induction xs) (auto simp: List.map_filter_def)

text \<open>
  Claim C6: an update with a value tensor and a weight tensor of one shape does not
  raise, and its effect is that of an update with the surviving pairs alone. A
  position where the value or the weight is not finite is dropped from both: the
  update without that position ends in the same state. When no position survives,
  and for an empty payload, the state is left as it was.
\<close>

theorem NLL_update_filters_paired:
  assumes "length v = length w"
  shows "\<exists>self'. NLL_update self (Tensor v) (Tensor w) = Inr self'
           \<and> NLL_update self
                 (Tensor (map (Fin \<circ> fst) (List.map_filter finite_pair (zip v w))))
                 (Tensor (map (Fin \<circ> snd) (List.map_filter finite_pair (zip v w)))) = Inr self'
           \<and> (\<forall>i<length v. \<not> is_finite (v ! i) \<or> \<not> is_finite (w ! i) \<longrightarrow>
                 NLL_update self (Tensor (take i v @ drop (Suc i) v))
                                 (Tensor (take i w @ drop (Suc i) w)) = Inr self')
           \<and> ((\<forall>i<length v. \<not> is_finite (v ! i) \<or> \<not> is_finite (w ! i)) \<longrightarrow> self' = self)
           \<and> NLL_update self (Tensor []) (Tensor []) = Inr self
           \<and> NLL_update self (Tensor []) (Scalar x) = Inr self"
proof -
  let ?kept = "List.map_filter finite_pair (zip v w)"
  let ?s = "self\<lparr>mean_value := mean_value self + sum_list (map fst ?kept),
                  weight := weight self + sum_list (map snd ?kept)\<rparr>"
  have a: "NLL_update self (Tensor v) (Tensor w) = Inr ?s"
    using assms by (simp add: NLL_update_eq)
  have b: "NLL_update self (Tensor (map (Fin \<circ> fst) ?kept)) (Tensor (map (Fin \<circ> snd) ?kept)) = Inr ?s"
    by (simp add: NLL_update_eq map_filter_finite_id)
  have c: "NLL_update self (Tensor (take i v @ drop (Suc i) v)) (Tensor (take i w @ drop (Suc i) w)) = Inr ?s"
    if "i < length v" and "\<not> is_finite (v ! i) \<or> \<not> is_finite (w ! i)" for i
  proof -
    have len: "length (take i v @ drop (Suc i) v) = length (take i w @ drop (Suc i) w)"
      using assms by simp
    show ?thesis
      by (simp only: NLL_update_Tensor[OF len] map_filter_remove_nth[OF assms that])
  qed
  have d: "?s = self" if all: "\<forall>i<length v. \<not> is_finite (v ! i) \<or> \<not> is_finite (w ! i)"
  proof -
    have "\<forall>p\<in>set (zip v w). finite_pair p = None"
    proof
      fix p assume "p \<in> set (zip v w)"
      then obtain i where "i < length (zip v w)" and "zip v w ! i = p"
        by (auto simp: in_set_conv_nth)
      then show "finite_pair p = None"
        using all assms by (cases p) (auto simp: finite_pair_None)
    qed
    then have "?kept = []" by (rule map_filter_all_None)
    then show ?thesis by simp
  qed
  have e: "NLL_update self (Tensor []) (Tensor []) = Inr self"
    by (simp add: NLL_update_eq List.map_filter_def)
  have f: "NLL_update self (Tensor []) (Scalar x) = Inr self"
    by (simp add: NLL_update_eq List.map_filter_def)
  show ?thesis using a b c d e f by blast
qed

text \<open>
  Claim C6, witness: of four positions only the first has a finite value and a finite
  weight; dropping the NaN value at position 1 together with its weight changes
  nothing.
\<close>

theorem NLL_update_filters_paired_witness:
  "length [Fin 3, NaN, Fin 5, PosInf] = length [Fin 2, Fin 7, NegInf, Fin 1]
   \<and> NLL_update \<lparr>mean_value = 1, weight = 1\<rparr>
        (Tensor [Fin 3, NaN, Fin 5, PosInf]) (Tensor [Fin 2, Fin 7, NegInf, Fin 1])
       = Inr \<lparr>mean_value = 4, weight = 3\<rparr>
   \<and> NLL_update \<lparr>mean_value = 1, weight = 1\<rparr> (Tensor [Fin 3]) (Tensor [Fin 2])
       = Inr \<lparr>mean_value = 4, weight = 3\<rparr>
   \<and> NLL_update \<lparr>mean_value = 1, weight = 1\<rparr>
        (Tensor [Fin 3, Fin 5, PosInf]) (Tensor [Fin 2, NegInf, Fin 1])
       = Inr \<lparr>mean_value = 4, weight = 3\<rparr>"
proof -
  let ?v = "[Fin 3, NaN, Fin 5, PosInf]"
  let ?w = "[Fin 2, Fin 7, NegInf, Fin 1]"
  have len: "length ?v = length ?w" by simp
  have kept: "List.map_filter finite_pair (zip ?v ?w) = [(3, 2)]"
    by (simp add: List.map_filter_def)
  from NLL_update_filters_paired[OF len, of "\<lparr>mean_value = 1, weight = 1\<rparr>"]
  obtain s where
    a: "NLL_update \<lparr>mean_value = 1, weight = 1\<rparr> (Tensor ?v) (Tensor ?w) = Inr s"
    and b: "NLL_update \<lparr>mean_value = 1, weight = 1\<rparr>
              (Tensor (map (Fin \<circ> fst) (List.map_filter finite_pair (zip ?v ?w))))
              (Tensor (map (Fin \<circ> snd) (List.map_filter finite_pair (zip ?v ?w)))) = Inr s"
    and c: "\<forall>i<length ?v. \<not> is_finite (?v ! i) \<or> \<not> is_finite (?w ! i) \<longrightarrow>
              NLL_update \<lparr>mean_value = 1, weight = 1\<rparr> (Tensor (take i ?v @ drop (Suc i) ?v))
                (Tensor (take i ?w @ drop (Suc i) ?w)) = Inr s"
    by blast
  have s: "s = \<lparr>mean_value = 4, weight = 3\<rparr>"
    using b by (simp add: kept NLL_update_eq List.map_filter_def)
  have c1: "NLL_update \<lparr>mean_value = 1, weight = 1\<rparr> (Tensor (take 1 ?v @ drop (Suc 1) ?v))
                (Tensor (take 1 ?w @ drop (Suc 1) ?w)) = Inr s"
    using c[rule_format, of 1] by simp
  show ?thesis using a b c1 s by (simp add: kept)
qed

lemma map_filter_finite_mem:
  "(a, b) \<in> set (List.map_filter finite_pair xs) \<Longrightarrow> (Fin a, Fin b) \<in> set xs"
proof (induction xs)
  case Nil
  then show ?case by (simp add: List.map_filter_def)
next
  case (Cons p xs)
  obtain x y where p: "p = (x, y)" by (cases p)
  show ?case
  proof (cases "finite_pair p")
    case None
    then have "List.map_filter finite_pair (p # xs) = List.map_filter finite_pair xs"
      by (simp add: List.map_filter_def)
    with Cons show ?thesis by simp
  next
    case (Some q)
    then have pq: "p = (Fin (fst q), Fin (snd q))"
      unfolding p by (cases x; cases y) auto
    have "List.map_filter finite_pair (p # xs) = q # List.map_filter finite_pair xs"
      using Some by (simp add: List.map_filter_def)
    with Cons pq show ?thesis by (cases q) auto
  qed
qed

lemma kept_weights_nonneg:
  assumes "\<forall>p\<in>set xs. \<not> negative (snd p)"
  shows "0 \<le> sum_list (map snd (List.map_filter finite_pair xs))"
proof (rule sum_list_nonneg)
  fix b assume "b \<in> set (map snd (List.map_filter finite_pair xs))"
  then obtain a where "(a, b) \<in> set (List.map_filter finite_pair xs)" by auto
  then have "(Fin a, Fin b) \<in> set xs" by (rule map_filter_finite_mem)
  with assms have "\<not> negative (snd (Fin a, Fin b))" by blast
  then show "0 \<le> b" by simp
qed

lemma kept_values_nonneg:
  assumes "\<forall>p\<in>set xs. \<not> negative (fst p)"
  shows "0 \<le> sum_list (map fst (List.map_filter finite_pair xs))"
proof (rule sum_list_nonneg)
  fix a assume "a \<in> set (map fst (List.map_filter finite_pair xs))"
  then obtain b where "(a, b) \<in> set (List.map_filter finite_pair xs)" by auto
  then have "(Fin a, Fin b) \<in> set xs" by (rule map_filter_finite_mem)
  with assms have "\<not> negative (fst (Fin a, Fin b))" by blast
  then show "0 \<le> a" by simp
qed

lemma NLL_update_Inr_paired:
  assumes "NLL_update self (fst u) (snd u) = Inr s"
  shows "s = self\<lparr>mean_value := mean_value self + sum_list (map fst (List.map_filter finite_pair (paired u))),
                  weight := weight self + sum_list (map snd (List.map_filter finite_pair (paired u)))\<rparr>"
proof (cases "broadcast_to (snd u) (fst u)")
  case (Inl e)
  with assms show ?thesis by (simp add: NLL_update_eq)
next
  case (Inr wb)
  then have "\<not> isl (broadcast_to (snd u) (fst u))" by simp
  from NLL_update_paired[OF this, of self] assms show ?thesis by simp
qed

lemma NLL_updates_weight_mono:
  "NLL_updates self us = Inr self' \<Longrightarrow>
   \<forall>u\<in>set us. \<forall>p\<in>set (paired u). \<not> negative (snd p) \<Longrightarrow>
   weight self \<le> weight self'"
proof (induction us arbitrary: self)
  case Nil
  then show ?case by (simp add: NLL_updates_def)
next
  case (Cons u us)
  from Cons.prems(1) obtain s where
    step: "NLL_update self (fst u) (snd u) = Inr s" and rest: "NLL_updates s us = Inr self'"
    by (cases "NLL_update self (fst u) (snd u)") (auto simp: NLL_updates_Cons)
  have "0 \<le> sum_list (map snd (List.map_filter finite_pair (paired u)))"
    using Cons.prems(2) by (intro kept_weights_nonneg) simp
  then have "weight self \<le> weight s"
    unfolding NLL_update_Inr_paired[OF step] by simp
  moreover have "weight s \<le> weight self'"
    using Cons.IH[OF rest] Cons.prems(2) by simp
  ultimately show ?case by linarith
qed

lemma NLL_updates_mean_value_mono:
  "NLL_updates self us = Inr self' \<Longrightarrow>
   \<forall>u\<in>set us. \<forall>p\<in>set (paired u). \<not> negative (fst p) \<Longrightarrow>
   mean_value self \<le> mean_value self'"
proof (induction us arbitrary: self)
  case Nil
  then show ?case by (simp add: NLL_updates_def)
next
  case (Cons u us)
  from Cons.prems(1) obtain s where
    step: "NLL_update self (fst u) (snd u) = Inr s" and rest: "NLL_updates s us = Inr self'"
    by (cases "NLL_update self (fst u) (snd u)") (auto simp: NLL_updates_Cons)
  have "0 \<le> sum_list (map fst (List.map_filter finite_pair (paired u)))"
    using Cons.prems(2) by (intro kept_values_nonneg) simp
  then have "mean_value self \<le> mean_value s"
    unfolding NLL_update_Inr_paired[OF step] by simp
  moreover have "mean_value s \<le> mean_value self'"
    using Cons.IH[OF rest] Cons.prems(2) by simp
  ultimately show ?case by linarith
qed

lemma MeanMetric_update_mono:
  assumes "MeanMetric_update acc x = Inr acc'"
  shows "weight acc \<le> weight acc' \<and> (\<not> negative x \<longrightarrow> mean_value acc \<le> mean_value acc')"
  using assms
  by (cases x) (auto simp: MeanMetric_update_def cast_and_nan_check_input_def List.map_filter_def)

text \<open>
  Claim C9, as the code has it. From any state, a sequence of updates that does not
  raise and whose weights are not negative leaves the running weight at least as
  large as it was, so that it stays non-negative from a reset on; the running sum of
  values is at least as large as it was when the values are not negative either. The
  same holds for an update of the plain running mean, whose weight is \<open>1\<close>.
\<close>

theorem NLL_updates_monotone:
  assumes "NLL_updates self us = Inr self'"
      and "\<forall>u\<in>set us. \<forall>p\<in>set (paired u). \<not> negative (snd p)"
  shows "weight self \<le> weight self'
       \<and> (self = reset a \<longrightarrow> 0 \<le> weight self')
       \<and> ((\<forall>u\<in>set us. \<forall>p\<in>set (paired u). \<not> negative (fst p))
            \<longrightarrow> mean_value self \<le> mean_value self')
       \<and> (MeanMetric_update acc x = Inr acc' \<longrightarrow>
             weight acc \<le> weight acc'
             \<and> (\<not> negative x \<longrightarrow> mean_value acc \<le> mean_value acc'))"
proof -
  have w: "weight self \<le> weight self'"
    using assms by (rule NLL_updates_weight_mono)
  have r: "0 \<le> weight self'" if "self = reset a"
    using w that by (simp add: reset_def)
  have m: "mean_value self \<le> mean_value self'"
    if "\<forall>u\<in>set us. \<forall>p\<in>set (paired u). \<not> negative (fst p)"
    using assms(1) that by (rule NLL_updates_mean_value_mono)
  have e: "weight acc \<le> weight acc' \<and> (\<not> negative x \<longrightarrow> mean_value acc \<le> mean_value acc')"
    if "MeanMetric_update acc x = Inr acc'"
    using that by (rule MeanMetric_update_mono)
  show ?thesis using w r m e by blast
qed

text \<open>
  Claim C9, witness: two updates with non-negative values and weights, from the reset
  state, and one update of a plain running mean.
\<close>

theorem NLL_updates_monotone_witness:
  "NLL_updates (reset \<lparr>mean_value = 3, weight = 5\<rparr>)
      [(Tensor [Fin 2, Fin 0], Scalar (Fin 1)), (Scalar (Fin 4), Scalar (Fin 3))]
     = Inr \<lparr>mean_value = 6, weight = 5\<rparr>
   \<and> weight (reset \<lparr>mean_value = 3, weight = 5\<rparr>) \<le> weight \<lparr>mean_value = 6, weight = 5\<rparr>
   \<and> 0 \<le> weight \<lparr>mean_value = 6, weight = (5::real)\<rparr>
   \<and> mean_value (reset \<lparr>mean_value = 3, weight = 5\<rparr>) \<le> mean_value \<lparr>mean_value = 6, weight = 5\<rparr>
   \<and> MeanMetric_update \<lparr>mean_value = 6, weight = 5\<rparr> (Fin 1) = Inr \<lparr>mean_value = 7, weight = 6\<rparr>
   \<and> weight \<lparr>mean_value = 6, weight = (5::real)\<rparr> \<le> weight \<lparr>mean_value = 7, weight = (6::real)\<rparr>
   \<and> mean_value \<lparr>mean_value = 6, weight = (5::real)\<rparr> \<le> mean_value \<lparr>mean_value = 7, weight = (6::real)\<rparr>"
proof -
  let ?us = "[(Tensor [Fin 2, Fin 0], Scalar (Fin 1)), (Scalar (Fin 4), Scalar (Fin 3))]"
  let ?a = "\<lparr>mean_value = 3, weight = 5\<rparr> :: accumulator"
  let ?s = "\<lparr>mean_value = 6, weight = 5\<rparr> :: accumulator"
  let ?t = "\<lparr>mean_value = 7, weight = 6\<rparr> :: accumulator"
  have run: "NLL_updates (reset ?a) ?us = Inr ?s"
    by (simp add: NLL_updates_def NLL_update_eq List.map_filter_def reset_def numeral_2_eq_2)
  have wts: "\<forall>u\<in>set ?us. \<forall>p\<in>set (paired u). \<not> negative (snd p)"
    by (auto simp: paired_def numeral_2_eq_2)
  have vals: "\<forall>u\<in>set ?us. \<forall>p\<in>set (paired u). \<not> negative (fst p)"
    by (auto simp: paired_def numeral_2_eq_2)
  have mm: "MeanMetric_update ?s (Fin 1) = Inr ?t"
    by (simp add: MeanMetric_update_def cast_and_nan_check_input_def List.map_filter_def)
  have nn: "\<not> negative (Fin 1)" by simp
  note th = NLL_updates_monotone[OF run wts, where a = ?a and acc = ?s and x = "Fin 1" and acc' = ?t]
  note c1 = th[THEN conjunct1]
  note c2 = th[THEN conjunct2, THEN conjunct1, THEN mp, OF refl]
  note c3 = th[THEN conjunct2, THEN conjunct2, THEN conjunct1, THEN mp, OF vals]
  note c4 = th[THEN conjunct2, THEN conjunct2, THEN conjunct2, THEN mp, OF mm]
  show ?thesis
    by (intro conjI run c1 c2 c3 mm c4[THEN conjunct1] c4[THEN conjunct2, THEN mp, OF nn])
qed

text \<open>
  Claim C9, counterexample: the weight \<open>1\<close> is non-negative, and the update with the
  value \<open>-1\<close> takes the running sum of values from \<open>0\<close> down to \<open>-1\<close>.
\<close>

theorem NLL_update_negative_value_counterexample:
  "NLL_update \<lparr>mean_value = 0, weight = 0\<rparr> (Scalar (Fin (- 1))) (Scalar (Fin 1))
     = Inr \<lparr>mean_value = - 1, weight = 1\<rparr>
   \<and> \<not> negative (Fin 1)
   \<and> \<not> (mean_value \<lparr>mean_value = 0, weight = (0::real)\<rparr>
          \<le> mean_value \<lparr>mean_value = - 1, weight = (1::real)\<rparr>)"
  by (simp add: NLL_update_eq List.map_filter_def)

lemma LOG2_pos: "0 < LOG2"
  by (simp add: LOG2_def)

lemma collection_update_same:
  assumes "collection_update c v w = Inr c'" and "nll c = bpd c" and "bpd c = ppl c"
  shows "nll c' = bpd c' \<and> bpd c' = ppl c'"
proof (cases "NLL_update (nll c) v w")
  case (Inl e)
  with assms(1) show ?thesis by (simp add: collection_update_def)
next
  case (Inr a)
  with assms have "c' = \<lparr>nll = a, bpd = a, ppl = a\<rparr>"
    by (auto simp: collection_update_def)
  then show ?thesis by simp
qed

text \<open>
  Claim C7: \<open>BPD.compute()\<close> is the mean NLL divided by \<open>ln 2\<close> and
  \<open>Perplexity.compute()\<close> is the exponential of the mean NLL; with a running weight
  other than zero both are finite numbers. When the mean NLL is \<open>0\<close> they are
  exactly \<open>0\<close> and \<open>1\<close>. The three metrics of a collection are updated by the
  same \<open>update\<close>, so from equal states they stay equal.
\<close>

theorem BPD_Perplexity_of_mean_NLL:
  "BPD_compute self = fv_div (NLL_compute self) (ln 2)
   \<and> Perplexity_compute self = fv_exp (NLL_compute self)
   \<and> (weight self \<noteq> 0 \<longrightarrow>
        NLL_compute self = Fin (mean_value self / weight self)
        \<and> BPD_compute self = Fin (mean_value self / weight self / ln 2)
        \<and> Perplexity_compute self = Fin (exp (mean_value self / weight self)))
   \<and> (NLL_compute self = Fin 0 \<longrightarrow>
        BPD_compute self = Fin 0 \<and> Perplexity_compute self = Fin 1)
   \<and> (collection_update c v w = Inr c' \<and> nll c = bpd c \<and> bpd c = ppl c \<longrightarrow>
        nll c' = bpd c' \<and> bpd c' = ppl c')"
proof -
  have a: "BPD_compute self = fv_div (NLL_compute self) (ln 2)"
    by (simp add: BPD_compute_def NLL_compute_def LOG2_def)
  have b: "Perplexity_compute self = fv_exp (NLL_compute self)"
    by (simp add: Perplexity_compute_def NLL_compute_def)
  have c: "NLL_compute self = Fin (mean_value self / weight self)
        \<and> BPD_compute self = Fin (mean_value self / weight self / ln 2)
        \<and> Perplexity_compute self = Fin (exp (mean_value self / weight self))"
    if "weight self \<noteq> 0"
    using that LOG2_pos
    by (simp add: BPD_compute_def Perplexity_compute_def NLL_compute_def fdiv_def LOG2_def)
  have d: "BPD_compute self = Fin 0 \<and> Perplexity_compute self = Fin 1"
    if "NLL_compute self = Fin 0"
    using that LOG2_pos unfolding a b by (simp add: fdiv_def LOG2_def)
  have e: "nll c' = bpd c' \<and> bpd c' = ppl c'"
    if "collection_update c v w = Inr c' \<and> nll c = bpd c \<and> bpd c = ppl c"
    using that collection_update_same by blast
  show ?thesis using a b c d e by blast
qed

text \<open>
  Claim C7, witness: a state with mean NLL \<open>0\<close>, and a collection after one update
  from the reset state.
\<close>

theorem BPD_Perplexity_of_mean_NLL_witness:
  "weight \<lparr>mean_value = 0, weight = 4\<rparr> \<noteq> (0::real)
   \<and> NLL_compute \<lparr>mean_value = 0, weight = 4\<rparr> = Fin 0
   \<and> BPD_compute \<lparr>mean_value = 0, weight = 4\<rparr> = Fin 0
   \<and> Perplexity_compute \<lparr>mean_value = 0, weight = 4\<rparr> = Fin 1
   \<and> collection_update
        \<lparr>nll = \<lparr>mean_value = 0, weight = 0\<rparr>, bpd = \<lparr>mean_value = 0, weight = 0\<rparr>,
         ppl = \<lparr>mean_value = 0, weight = 0\<rparr>\<rparr> (Scalar (Fin 7)) (Scalar (Fin 2))
      = Inr \<lparr>nll = \<lparr>mean_value = 7, weight = 2\<rparr>, bpd = \<lparr>mean_value = 7, weight = 2\<rparr>,
             ppl = \<lparr>mean_value = 7, weight = 2\<rparr>\<rparr>
   \<and> BPD_compute \<lparr>mean_value = 7, weight = 2\<rparr> = Fin (7 / 2 / ln 2)
   \<and> Perplexity_compute \<lparr>mean_value = 7, weight = 2\<rparr> = Fin (exp (7 / 2))"
proof -
  let ?z = "\<lparr>mean_value = 0, weight = 4\<rparr> :: accumulator"
  let ?s = "\<lparr>mean_value = 7, weight = 2\<rparr> :: accumulator"
  have n0: "NLL_compute ?z = Fin 0" by (simp add: NLL_compute_def fdiv_def)
  have upd: "collection_update
        \<lparr>nll = \<lparr>mean_value = 0, weight = 0\<rparr>, bpd = \<lparr>mean_value = 0, weight = 0\<rparr>,
         ppl = \<lparr>mean_value = 0, weight = 0\<rparr>\<rparr> (Scalar (Fin 7)) (Scalar (Fin 2))
      = Inr \<lparr>nll = ?s, bpd = ?s, ppl = ?s\<rparr>"
    by (simp add: collection_update_def NLL_update_eq List.map_filter_def)
  have z: "BPD_compute ?z = Fin 0 \<and> Perplexity_compute ?z = Fin 1"
    using BPD_Perplexity_of_mean_NLL[of ?z "\<lparr>nll = ?z, bpd = ?z, ppl = ?z\<rparr>" "Scalar NaN" "Scalar NaN"
            "\<lparr>nll = ?z, bpd = ?z, ppl = ?z\<rparr>"] n0
    by blast
  have w2: "weight ?s \<noteq> 0" by simp
  have s: "BPD_compute ?s = Fin (mean_value ?s / weight ?s / ln 2)
         \<and> Perplexity_compute ?s = Fin (exp (mean_value ?s / weight ?s))"
    using BPD_Perplexity_of_mean_NLL[of ?s "\<lparr>nll = ?z, bpd = ?z, ppl = ?z\<rparr>" "Scalar NaN" "Scalar NaN"
            "\<lparr>nll = ?z, bpd = ?z, ppl = ?z\<rparr>"] w2
    by blast
  have s': "BPD_compute ?s = Fin (7 / 2 / ln 2) \<and> Perplexity_compute ?s = Fin (exp (7 / 2))"
    using s by simp
  have w4: "weight ?z \<noteq> 0" by simp
  show ?thesis
    using w4 n0 z upd s' by blast
qed

section \<open>Properties of the validity mask\<close>

lemma length_cumsum_from: "length (cumsum_from a xs) = length xs"
  by (induction xs arbitrary: a) simp_all

lemma cumsum_from_nth:
  "i < length xs \<Longrightarrow> cumsum_from a xs ! i = a + sum_list (take (Suc i) xs)"
proof (induction xs arbitrary: a i)
  case Nil
  then show ?case by simp
next
  case (Cons x xs)
  show ?case
  proof (cases i)
    case 0
    then show ?thesis by simp
  next
    case (Suc j)
    with Cons.prems have "j < length xs" by simp
    from Cons.IH[OF this, of "a + x"] Suc show ?thesis by simp
  qed
qed

lemma sum_eos_indicator:
  "sum_list (map (\<lambda>t. if t = eos then 1 else 0) ys) = count_list ys eos"
  by (induction ys) simp_all

lemma length_first_eos: "length (first_eos eos row) = length row"
  by (simp add: first_eos_def cumsum_def length_cumsum_from)

lemma first_eos_nth:
  assumes "i < length row"
  shows "first_eos eos row ! i = (count_list (take (Suc i) row) eos = 1)"
proof -
  let ?ind = "map (\<lambda>t. if t = eos then 1 else 0) row :: nat list"
  have "cumsum ?ind ! i = sum_list (take (Suc i) ?ind)"
    using assms by (simp add: cumsum_def cumsum_from_nth)
  also have "\<dots> = count_list (take (Suc i) row) eos"
    by (simp add: take_map sum_eos_indicator)
  finally show ?thesis
    using assms by (simp add: first_eos_def cumsum_def length_cumsum_from)
qed

lemma length_valid_tokens: "length (valid_tokens eos row) = length row - 1"
  by (simp add: valid_tokens_def token_mask_def length_first_eos)

lemma valid_tokens_nth:
  assumes "Suc i < length row"
  shows "valid_tokens eos row ! i
         = (count_list (take (Suc (Suc i)) row) eos = 1 \<or> row ! Suc i \<noteq> eos)"
proof -
  have "valid_tokens eos row ! i = (first_eos eos row ! Suc i \<or> token_mask eos row ! Suc i)"
    using assms by (simp add: valid_tokens_def token_mask_def length_first_eos)
  then show ?thesis
    using assms by (simp add: first_eos_nth token_mask_def)
qed

text \<open>
  Claim C3: the mask of a row has one entry for each position from the second on.
  The entry for position \<open>t\<close> holds exactly when the number of end tokens among the
  positions up to and including \<open>t\<close> is \<open>1\<close>, or the token at \<open>t\<close> is not the end
  token. For \<open>[A, B, EOS, EOS, EOS]\<close> the mask keeps \<open>B\<close> and the first end
  token and drops the two that follow.
\<close>

theorem valid_tokens_mask:
  "length (valid_tokens eos row) = length row - 1
   \<and> (\<forall>t. 1 \<le> t \<and> t < length row \<longrightarrow>
         valid_tokens eos row ! (t - 1)
           = (count_list (take (Suc t) row) eos = 1 \<or> row ! t \<noteq> eos))
   \<and> (A \<noteq> eos \<and> B \<noteq> eos \<longrightarrow>
         valid_tokens eos [A, B, eos, eos, eos] = [True, True, False, False])"
proof -
  have a: "valid_tokens eos row ! (t - 1)
           = (count_list (take (Suc t) row) eos = 1 \<or> row ! t \<noteq> eos)"
    if "1 \<le> t \<and> t < length row" for t
  proof -
    from that obtain i where t: "t = Suc i" by (cases t) auto
    with that have "Suc i < length row" by simp
    from valid_tokens_nth[OF this] t show ?thesis by simp
  qed
  have b: "valid_tokens eos [A, B, eos, eos, eos] = [True, True, False, False]"
    if "A \<noteq> eos \<and> B \<noteq> eos"
    using that by (simp add: valid_tokens_def first_eos_def token_mask_def cumsum_def)
  show ?thesis using a b length_valid_tokens by blast
qed

text \<open>Claim C3, witness: the row \<open>[5, 6, 0, 0, 0]\<close> with the end token \<open>0\<close>.\<close>

theorem valid_tokens_mask_witness:
  "valid_tokens 0 [5, 6, 0, 0, 0::int] = [True, True, False, False]
   \<and> valid_tokens 0 [5, 6, 0, 0, 0::int] ! (2 - 1)
       = (count_list (take (Suc 2) [5, 6, 0, 0, 0::int]) 0 = 1 \<or> [5, 6, 0, 0, 0::int] ! 2 \<noteq> (0::int))
   \<and> count_list (take (Suc 2) [5, 6, 0, 0, 0::int]) (0::int) = 1
   \<and> valid_tokens 0 [5, 6, 0, 0, 0::int] ! (3 - 1)
       = (count_list (take (Suc 3) [5, 6, 0, 0, 0::int]) 0 = 1 \<or> [5, 6, 0, 0, 0::int] ! 3 \<noteq> (0::int))
   \<and> count_list (take (Suc 3) [5, 6, 0, 0, 0::int]) (0::int) = 2"
proof -
  note th = valid_tokens_mask[of 0 "[5, 6, 0, 0, 0::int]" 5 6]
  have ne: "(5::int) \<noteq> 0 \<and> (6::int) \<noteq> 0" by simp
  have m: "valid_tokens 0 [5, 6, 0, 0, 0::int] = [True, True, False, False]"
    by (rule th[THEN conjunct2, THEN conjunct2, rule_format, OF ne])
  have r2: "1 \<le> (2::nat) \<and> 2 < length [5, 6, 0, 0, 0::int]" by simp
  have r3: "1 \<le> (3::nat) \<and> 3 < length [5, 6, 0, 0, 0::int]" by simp
  note n2 = th[THEN conjunct2, THEN conjunct1, rule_format, OF r2]
  note n3 = th[THEN conjunct2, THEN conjunct1, rule_format, OF r3]
  have c2: "count_list (take (Suc 2) [5, 6, 0, 0, 0::int]) (0::int) = 1" by (simp add: numeral_2_eq_2)
  have c3: "count_list (take (Suc 3) [5, 6, 0, 0, 0::int]) (0::int) = 2" by (simp add: numeral_3_eq_3)
  show ?thesis
    by (intro conjI m n2 n3 c2 c3)
qed

lemma split_last_nth:
  assumes "split_last c rows = Inr chunks" and "0 < c" and "k < length chunks"
  shows "chunks ! k = map (\<lambda>r. take c (drop (k * c) r)) rows"
proof -
  let ?n = "max 1 ((ncols rows + c - 1) div c)"
  have ch: "chunks = map (\<lambda>k. map (\<lambda>r. take c (drop (k * c) r)) rows) [0..<?n]"
    using assms(1,2) by (simp add: split_last_def)
  then have "k < ?n" using assms(3) by simp
  then show ?thesis unfolding ch by (simp del: upt_Suc)
qed

lemma valid_tokens_map:
  "valid_tokens eos row = map (\<lambda>t. kept_position eos row (Suc t)) [0..<length row - 1]"
proof (rule nth_equalityI)
  show "length (valid_tokens eos row)
        = length (map (\<lambda>t. kept_position eos row (Suc t)) [0..<length row - 1])"
    by (simp add: length_valid_tokens)
next
  fix i assume "i < length (valid_tokens eos row)"
  then have i: "Suc i < length row" by (simp add: length_valid_tokens)
  then have "i < length row - 1" by simp
  with i show "valid_tokens eos row ! i
             = map (\<lambda>t. kept_position eos row (Suc t)) [0..<length row - 1] ! i"
    by (simp add: valid_tokens_nth kept_position_def disj_commute)
qed

lemma filter_kept_upt:
  "filter (kept_position eos row) [0..<length row]
   = map Suc (filter (\<lambda>t. kept_position eos row (Suc t)) [0..<length row - 1])"
proof (cases "length row")
  case 0
  then show ?thesis by simp
next
  case (Suc n)
  have "[0..<Suc n] = 0 # map Suc [0..<n]"
    by (simp add: upt_conv_Cons map_Suc_upt del: upt_Suc)
  moreover have "\<not> kept_position eos row 0" by (simp add: kept_position_def)
  ultimately show ?thesis
    unfolding Suc by (simp add: filter_map comp_def del: upt_Suc)
qed

lemma valid_tokens_count:
  "length (filter id (valid_tokens eos row))
   = length (filter (kept_position eos row) [0..<length row])"
  by (simp add: valid_tokens_map filter_kept_upt filter_map comp_def)

lemma sum_list_if_filter:
  "sum_list (map (\<lambda>t. if P t then f t else 0) xs) = (sum_list (map f (filter P xs)) :: real)"
  by (induction xs) simp_all

lemma kept_losses_row:
  "sum_list (map (\<lambda>t. if kept_position eos row (Suc t) then l t else 0) [0..<length row - 1])
   = (sum_list (map (\<lambda>t. l (t - 1)) (filter (kept_position eos row) [0..<length row])) :: real)"
  by (simp add: sum_list_if_filter filter_kept_upt comp_def)

lemma sum_list_ones: "sum_list (map (\<lambda>t. 1::real) xs) = real (length xs)"
  by (induction xs) simp_all

lemma fv_mul_mask_Fin: "fv_mul_mask (Fin x) b = Fin (if b then x else 0)"
  by (cases b) simp_all

lemma kept_count_row:
  "sum_list (map (\<lambda>t. if kept_position eos row (Suc t) then 1 else 0) [0..<length row - 1])
   = real (length (filter (kept_position eos row) [0..<length row]))"
  by (simp add: sum_list_if_filter filter_kept_upt sum_list_ones)

lemma NLL_update_Fin:
  assumes "length xs = length ys"
  shows "NLL_update acc (Tensor (map Fin xs)) (Tensor (map Fin ys))
         = Inr (acc\<lparr>mean_value := mean_value acc + sum_list xs,
                    weight := weight acc + sum_list ys\<rparr>)"
proof -
  have "List.map_filter finite_pair (zip (map Fin xs) (map Fin ys)) = zip xs ys"
    using assms by (induction xs ys rule: list_induct2) (simp_all add: List.map_filter_def)
  then show ?thesis
    using assms by (simp add: NLL_update_Tensor)
qed

lemma real_sum_list: "sum_list (map (\<lambda>x. real (h x)) xs) = real (sum_list (map h xs))"
  by (induction xs) simp_all

lemma sum_list_concat_map:
  "sum_list (concat (map f xs)) = (sum_list (map (\<lambda>x. sum_list (f x)) xs) :: real)"
  by (induction xs) simp_all

lemma zip_map_same: "zip (map f xs) (map g xs) = map (\<lambda>x. (f x, g x)) xs"
  by (induction xs) simp_all

lemma score_chunk_exact:
  "score_chunk (\<lambda>ch am r t. Fin (loss ch am r t)) eos acc (sample_chunk, attn_mask_chunk)
   = Inr (acc\<lparr>mean_value := mean_value acc + kept_loss_sum loss eos (sample_chunk, attn_mask_chunk),
              weight := weight acc + real (kept_count eos sample_chunk)\<rparr>)"
proof -
  let ?l = "loss sample_chunk attn_mask_chunk"
  let ?K = "\<lambda>r t. kept_position eos (sample_chunk ! r) (Suc t)"
  let ?ts = "\<lambda>r. [0..<length (sample_chunk ! r) - 1]"
  let ?rs = "[0..<length sample_chunk]"
  let ?vals = "concat (map (\<lambda>r. map (\<lambda>t. if ?K r t then ?l r t else 0) (?ts r)) ?rs)"
  let ?wts = "concat (map (\<lambda>r. map (\<lambda>t. if ?K r t then 1 else (0::real)) (?ts r)) ?rs)"
  have valid: "map (valid_tokens eos) sample_chunk = map (\<lambda>r. map (?K r) (?ts r)) ?rs"
    by (rule nth_equalityI) (simp_all add: valid_tokens_map)
  have v: "concat (map2 (map2 fv_mul_mask)
             (nlls_of (\<lambda>ch am r t. Fin (loss ch am r t)) sample_chunk attn_mask_chunk)
             (map (valid_tokens eos) sample_chunk)) = map Fin ?vals"
    unfolding valid nlls_of_def
    by (simp add: zip_map_same fv_mul_mask_Fin map_concat comp_def)
  have w: "concat (map (map mask_val) (map (valid_tokens eos) sample_chunk)) = map Fin ?wts"
    unfolding valid by (simp add: mask_val_def map_concat comp_def)
  have len: "length ?vals = length ?wts"
    by (simp add: length_concat comp_def)
  have sv: "sum_list ?vals = kept_loss_sum loss eos (sample_chunk, attn_mask_chunk)"
    by (simp only: sum_list_concat_map kept_losses_row kept_loss_sum_def prod.case)
  have "sum_list ?wts
        = sum_list (map (\<lambda>r. real (length (filter (kept_position eos (sample_chunk ! r))
                                         [0..<length (sample_chunk ! r)]))) ?rs)"
    by (simp only: sum_list_concat_map kept_count_row)
  also have "\<dots> = real (sum_list (map (\<lambda>r. length (filter (kept_position eos (sample_chunk ! r))
                                         [0..<length (sample_chunk ! r)])) ?rs))"
    by (rule real_sum_list)
  also have "map (\<lambda>r. length (filter (kept_position eos (sample_chunk ! r))
                                         [0..<length (sample_chunk ! r)])) ?rs
             = map (\<lambda>row. length (filter (kept_position eos row) [0..<length row])) sample_chunk"
    by (rule nth_equalityI) simp_all
  finally have sw: "sum_list ?wts = real (kept_count eos sample_chunk)"
    by (simp add: kept_count_def)
  have "score_chunk (\<lambda>ch am r t. Fin (loss ch am r t)) eos acc (sample_chunk, attn_mask_chunk)
        = NLL_update acc (Tensor (map Fin ?vals)) (Tensor (map Fin ?wts))"
    by (simp only: score_chunk_def Let_def prod.case v w)
  also have "\<dots> = Inr (acc\<lparr>mean_value := mean_value acc + sum_list ?vals,
                          weight := weight acc + sum_list ?wts\<rparr>)"
    by (rule NLL_update_Fin[OF len])
  finally show ?thesis by (simp only: sv sw)
qed

lemma foldE_add:
  assumes "\<And>x acc. x \<in> set xs \<Longrightarrow>
             f acc x = Inr (acc\<lparr>mean_value := mean_value acc + g x, weight := weight acc + h x\<rparr>)"
  shows "foldE f xs acc
         = Inr (acc\<lparr>mean_value := mean_value acc + sum_list (map g xs),
                    weight := weight acc + sum_list (map h xs)\<rparr>)"
  using assms
proof (induction xs arbitrary: acc)
  case Nil
  show ?case by simp
next
  case (Cons x xs)
  have step: "f acc x = Inr (acc\<lparr>mean_value := mean_value acc + g x, weight := weight acc + h x\<rparr>)"
    using Cons.prems by simp
  have rest: "\<And>y a. y \<in> set xs \<Longrightarrow>
             f a y = Inr (a\<lparr>mean_value := mean_value a + g y, weight := weight a + h y\<rparr>)"
    using Cons.prems by simp
  show ?case
    by (simp add: step Cons.IH[OF rest] add.assoc)
qed

lemma score_group_exact:
  assumes "split_last c (take b (drop (i * b) samples)) = Inr chunks"
      and "split_last c (take b (drop (i * b) attn_mask)) = Inr achunks"
  shows "score_group (\<lambda>ch am r t. Fin (loss ch am r t)) eos c samples attn_mask b acc i
         = Inr (acc\<lparr>mean_value := mean_value acc
                       + sum_list (map (kept_loss_sum loss eos) (zip chunks achunks)),
                    weight := weight acc
                       + sum_list (map (\<lambda>x. real (kept_count eos (fst x))) (zip chunks achunks))\<rparr>)"
proof -
  have "score_group (\<lambda>ch am r t. Fin (loss ch am r t)) eos c samples attn_mask b acc i
        = foldE (score_chunk (\<lambda>ch am r t. Fin (loss ch am r t)) eos) (zip chunks achunks) acc"
    by (simp only: score_group_def assms bindE.simps)
  also have "\<dots> = Inr (acc\<lparr>mean_value := mean_value acc
                       + sum_list (map (kept_loss_sum loss eos) (zip chunks achunks)),
                    weight := weight acc
                       + sum_list (map (\<lambda>x. real (kept_count eos (fst x))) (zip chunks achunks))\<rparr>)"
  proof (rule foldE_add)
    fix x :: "int list list \<times> int list list" and a
    show "score_chunk (\<lambda>ch am r t. Fin (loss ch am r t)) eos a x
          = Inr (a\<lparr>mean_value := mean_value a + kept_loss_sum loss eos x,
                   weight := weight a + real (kept_count eos (fst x))\<rparr>)"
      using score_chunk_exact[of loss eos a "fst x" "snd x"] by simp
  qed
  finally show ?thesis .
qed

lemma kept_first_eos:
  assumes "0 < p" and "p < length ch" and "ch ! p = eos" and "eos \<notin> set (take p ch)"
  shows "kept_position eos ch p"
proof -
  have "take (Suc p) ch = take p ch @ [ch ! p]"
    using assms(2) by (rule take_Suc_conv_app_nth)
  then have "count_list (take (Suc p) ch) eos = 1"
    using assms(3,4) by simp
  then show ?thesis using assms(1,2) by (simp add: kept_position_def)
qed

text \<open>
  Claim C10, as the code has it. The group is cut into chunks, the \<open>k\<close>-th chunk
  holding the \<open>k\<close>-th pieces of \<open>c\<close> tokens of its rows, and each chunk is one
  update of the accumulator, computed from the chunk alone: it adds the losses at
  the kept positions of the chunk and their number, the cumulative count of end
  tokens starting anew in each chunk. So the first end token of a chunk is kept
  whenever it is not at the first position of the chunk, whatever the earlier chunks
  of the row hold; the first position of a chunk has no entry in the mask.
\<close>

theorem score_group_masks_per_chunk:
  assumes "split_last c (take b (drop (i * b) samples)) = Inr chunks"
      and "split_last c (take b (drop (i * b) attn_mask)) = Inr achunks"
      and "0 < c"
  shows "score_group (\<lambda>ch am r t. Fin (loss ch am r t)) eos c samples attn_mask b acc i
          = Inr (acc\<lparr>mean_value := mean_value acc
                        + sum_list (map (kept_loss_sum loss eos) (zip chunks achunks)),
                     weight := weight acc
                        + sum_list (map (\<lambda>x. real (kept_count eos (fst x))) (zip chunks achunks))\<rparr>)
       \<and> (\<forall>k<length chunks.
             chunks ! k = map (\<lambda>row. take c (drop (k * c) row)) (take b (drop (i * b) samples)))
       \<and> (\<forall>ch p. 0 < p \<and> p < length ch \<and> ch ! p = eos \<and> eos \<notin> set (take p ch)
             \<longrightarrow> kept_position eos ch p)"
proof -
  have a: "chunks ! k = map (\<lambda>row. take c (drop (k * c) row)) (take b (drop (i * b) samples))"
    if "k < length chunks" for k
    using assms(1,3) that by (rule split_last_nth)
  have b: "kept_position eos ch p"
    if "0 < p \<and> p < length ch \<and> ch ! p = eos \<and> eos \<notin> set (take p ch)" for ch p
    using that kept_first_eos by blast
  show ?thesis
    using score_group_exact[OF assms(1,2), of loss eos acc] a b by blast
qed

text \<open>
  Claim C10, witness: the row \<open>[5, 0, 0, 6, 7, 0]\<close> with the end token \<open>0\<close>, a
  context of \<open>3\<close> and the loss \<open>1 + t\<close> at index \<open>t\<close>. The first chunk adds the
  loss \<open>1\<close> of its first end token, the second chunk the losses \<open>1\<close> and \<open>2\<close> of
  the token \<open>7\<close> and of its own first end token, which the mask of the whole row
  would drop.
\<close>

theorem score_group_masks_per_chunk_witness:
  "score_group (\<lambda>ch am r t. Fin (1 + real t)) 0 3 [[5, 0, 0, 6, 7, 0]] [[1, 1, 1, 1, 1, 1]] 1
       \<lparr>mean_value = 0, weight = 0\<rparr> 0
     = Inr \<lparr>mean_value = 4, weight = 3\<rparr>
   \<and> [[[5, 0, 0]], [[6, 7, 0::int]]] ! 1 = map (\<lambda>row. take 3 (drop (1 * 3) row)) [[5, 0, 0, 6, 7, 0]]
   \<and> (0::int) \<in> set [5, 0, 0]
   \<and> kept_position 0 [6, 7, 0] 2
   \<and> \<not> kept_position 0 [5, 0, 0, 6, 7, 0] 5"
proof -
  let ?samples = "[[5, 0, 0, 6, 7, 0::int]]"
  let ?attn = "[[1, 1, 1, 1, 1, 1::int]]"
  let ?chunks = "[[[5, 0, 0]], [[6, 7, 0::int]]]"
  let ?achunks = "[[[1, 1, 1]], [[1, 1, 1::int]]]"
  let ?loss = "(\<lambda>ch am r t. 1 + real t) :: int list list \<Rightarrow> int list list \<Rightarrow> nat \<Rightarrow> nat \<Rightarrow> real"
  let ?acc = "\<lparr>mean_value = 0, weight = 0\<rparr> :: accumulator"
  have s: "split_last 3 (take 1 (drop (0 * 1) ?samples)) = Inr ?chunks"
    by code_simp
  have a: "split_last 3 (take 1 (drop (0 * 1) ?attn)) = Inr ?achunks"
    by code_simp
  have c: "0 < (3::nat)" by simp
  note th = score_group_masks_per_chunk[OF s a c, of ?loss 0 ?acc]
  have l1: "kept_loss_sum ?loss 0 ([[5, 0, 0]], [[1, 1, 1]]) = 1"
    by code_simp
  have l2: "kept_loss_sum ?loss 0 ([[6, 7, 0]], [[1, 1, 1]]) = 3"
    by code_simp
  have k1: "kept_count 0 [[5, 0, 0]] = 1"
    by code_simp
  have k2: "kept_count 0 [[6, 7, 0]] = 2"
    by code_simp
  have run: "score_group (\<lambda>ch am r t. Fin (?loss ch am r t)) 0 3 ?samples ?attn 1 ?acc 0
             = Inr \<lparr>mean_value = 4, weight = 3\<rparr>"
    by (simp only: th[THEN conjunct1]) (simp add: l1 l2 k1 k2)
  have k: "(1::nat) < length ?chunks" by simp
  have piece: "?chunks ! 1 = map (\<lambda>row. take 3 (drop (1 * 3) row)) (take 1 (drop (0 * 1) ?samples))"
    by (rule th[THEN conjunct2, THEN conjunct1, rule_format, OF k])
  have pre: "0 < (2::nat) \<and> 2 < length [6, 7, 0::int] \<and> [6, 7, 0::int] ! 2 = 0
             \<and> (0::int) \<notin> set (take 2 [6, 7, 0])"
    by simp
  have kept: "kept_position 0 [6, 7, 0] 2"
    by (rule th[THEN conjunct2, THEN conjunct2, rule_format, OF pre])
  have whole: "\<not> kept_position 0 [5, 0, 0, 6, 7, 0] 5"
    by code_simp
  have earlier: "(0::int) \<in> set [5, 0, 0]" by simp
  from piece have piece': "?chunks ! 1 = map (\<lambda>row. take 3 (drop (1 * 3) row)) ?samples"
    by simp
  show ?thesis
    by (intro conjI run piece' earlier kept whole)
qed

text \<open>
  Claim C10, counterexample: the second chunk of the row \<open>[5, 6, 7, 0, 0, 0]\<close> starts
  with its first end token. The mask passed on has no entry for it and marks no
  position of the chunk, and the update of the chunk adds nothing.
\<close>

theorem chunk_starting_with_eos_counterexample:
  "split_last 3 [[5, 6, 7, 0, 0, 0::int]] = Inr [[[5, 6, 7]], [[0, 0, 0]]]
   \<and> [0, 0, 0::int] ! 0 = 0
   \<and> valid_tokens 0 [0, 0, 0] = [False, False]
   \<and> score_chunk (\<lambda>ch am r t. Fin 1) 0 \<lparr>mean_value = 0, weight = 0\<rparr> ([[0, 0, 0]], [[1, 1, 1]])
       = Inr \<lparr>mean_value = 0, weight = 0\<rparr>"
proof -
  have s: "split_last 3 [[5, 6, 7, 0, 0, 0::int]] = Inr [[[5, 6, 7]], [[0, 0, 0]]]"
    by code_simp
  have v: "valid_tokens 0 [0, 0, 0] = [False, False]"
    by (simp add: valid_tokens_def first_eos_def token_mask_def cumsum_def)
  have l: "kept_loss_sum (\<lambda>ch am r t. 1) 0 ([[0, 0, 0]], [[1, 1, 1]]) = 0"
    by code_simp
  have k: "kept_count 0 [[0, 0, 0]] = 0"
    by code_simp
  have c: "score_chunk (\<lambda>ch am r t. Fin 1) 0 \<lparr>mean_value = 0, weight = 0\<rparr> ([[0, 0, 0]], [[1, 1, 1]])
       = Inr \<lparr>mean_value = 0, weight = 0\<rparr>"
    using score_chunk_exact[of "\<lambda>ch am r t. 1" 0 "\<lparr>mean_value = 0, weight = 0\<rparr>" "[[0, 0, 0]]" "[[1, 1, 1]]"]
    by (simp add: l k)
  show ?thesis by (intro conjI s v c) simp
qed

section \<open>Properties of the generative-perplexity pipeline\<close>

lemma foldE_weight:
  assumes "\<forall>x\<in>set xs. \<forall>acc. \<exists>s. f acc x = Inr s \<and> weight s = weight acc + g x"
  shows "\<exists>s. foldE f xs acc = Inr s \<and> weight s = weight acc + sum_list (map g xs)"
  using assms
proof (induction xs arbitrary: acc)
  case Nil
  then show ?case by simp
next
  case (Cons x xs)
  from Cons.prems obtain s where s: "f acc x = Inr s" "weight s = weight acc + g x"
    by (meson list.set_intros(1))
  from Cons.prems have "\<forall>x\<in>set xs. \<forall>acc. \<exists>s. f acc x = Inr s \<and> weight s = weight acc + g x"
    by simp
  from Cons.IH[OF this, of s] obtain s' where
    "foldE f xs s = Inr s'" "weight s' = weight s + sum_list (map g xs)" by blast
  with s show ?case by simp
qed

lemma concat_map2_map2:
  "list_all2 (\<lambda>xs ys. length xs = length ys) xss yss \<Longrightarrow>
   concat (map2 (map2 f) xss yss) = map2 f (concat xss) (concat yss)"
  by (induction rule: list_all2_induct) simp_all

lemma length_concat_all2:
  "list_all2 (\<lambda>xs ys. length xs = length ys) xss yss \<Longrightarrow>
   length (concat xss) = length (concat yss)"
  by (induction rule: list_all2_induct) simp_all

lemma kept_weight_masked:
  "length v = length bs \<Longrightarrow> list_all is_finite v \<Longrightarrow>
   sum_list (map snd (List.map_filter finite_pair (zip (map2 fv_mul_mask v bs) (map mask_val bs))))
     = real (length (filter id bs))"
proof (induction v bs rule: list_induct2)
  case Nil
  show ?case by (simp add: List.map_filter_def)
next
  case (Cons x v b bs)
  from Cons.prems obtain a where x: "x = Fin a" by (cases x) auto
  have "List.map_filter finite_pair (zip (map2 fv_mul_mask (x # v) (b # bs)) (map mask_val (b # bs)))
        = (if b then a else 0, if b then 1 else 0)
          # List.map_filter finite_pair (zip (map2 fv_mul_mask v bs) (map mask_val bs))"
    unfolding x by (cases b) (simp_all add: List.map_filter_def mask_val_def)
  then show ?case using Cons by simp
qed

lemma length_filter_concat:
  "length (filter P (concat xss)) = sum_list (map (\<lambda>xs. length (filter P xs)) xss)"
  by (induction xss) simp_all

lemma nlls_valid_all2:
  "list_all2 (\<lambda>xs ys. length xs = length ys)
     (nlls_of score sample_chunk attn_mask_chunk) (map (valid_tokens eos) sample_chunk)"
  by (simp add: list_all2_conv_all_nth nlls_of_def length_valid_tokens)

lemma nlls_finite:
  assumes "\<forall>ch am r t. is_finite (score ch am r t)"
  shows "list_all is_finite (concat (nlls_of score sample_chunk attn_mask_chunk))"
  using assms by (auto simp: list_all_iff nlls_of_def)

lemma score_chunk_weight:
  assumes "\<forall>ch am r t. is_finite (score ch am r t)"
  shows "\<exists>s. score_chunk score eos acc (sample_chunk, attn_mask_chunk) = Inr s
           \<and> weight s = weight acc
               + real (sum_list (map (\<lambda>row. length (filter id (valid_tokens eos row))) sample_chunk))"
proof -
  let ?nlls = "nlls_of score sample_chunk attn_mask_chunk"
  let ?valid = "map (valid_tokens eos) sample_chunk"
  have all2: "list_all2 (\<lambda>xs ys. length xs = length ys) ?nlls ?valid"
    by (rule nlls_valid_all2)
  have v: "concat (map2 (map2 fv_mul_mask) ?nlls ?valid)
           = map2 fv_mul_mask (concat ?nlls) (concat ?valid)"
    using all2 by (rule concat_map2_map2)
  have w: "concat (map (map mask_val) ?valid) = map mask_val (concat ?valid)"
    by (simp add: map_concat)
  have len: "length (concat ?nlls) = length (concat ?valid)"
    using all2 by (rule length_concat_all2)
  have len': "length (map2 fv_mul_mask (concat ?nlls) (concat ?valid))
              = length (map mask_val (concat ?valid))"
    using len by simp
  have cnt: "length (filter id (concat ?valid))
             = sum_list (map (\<lambda>row. length (filter id (valid_tokens eos row))) sample_chunk)"
    by (simp add: length_filter_concat comp_def)
  have "score_chunk score eos acc (sample_chunk, attn_mask_chunk)
        = NLL_update acc (Tensor (map2 fv_mul_mask (concat ?nlls) (concat ?valid)))
            (Tensor (map mask_val (concat ?valid)))"
    by (simp only: score_chunk_def Let_def prod.case v w)
  then show ?thesis
    by (simp only: NLL_update_Tensor[OF len'] kept_weight_masked[OF len nlls_finite[OF assms]] cnt)
       simp
qed

lemma sum_list_swap:
  "sum_list (map (\<lambda>k. sum_list (map (\<lambda>r. f k r) rows)) ks)
   = (sum_list (map (\<lambda>r. sum_list (map (\<lambda>k. f k r) ks)) rows) :: nat)"
proof (induction ks)
  case Nil
  show ?case by (induction rows) simp_all
next
  case (Cons k ks)
  show ?case by (simp add: Cons sum_list_addf)
qed

lemma split_last_pos:
  "0 < c \<Longrightarrow>
   split_last c rows
     = Inr (map (\<lambda>k. map (\<lambda>r. take c (drop (k * c) r)) rows)
              [0..<max 1 ((ncols rows + c - 1) div c)])"
  by (simp add: split_last_def)

lemma ncols_rect: "rows \<noteq> [] \<Longrightarrow> \<forall>row\<in>set rows. length row = L \<Longrightarrow> ncols rows = L"
  by (cases rows) (simp_all add: ncols_def)

lemma group_valid_count:
  assumes "\<forall>row\<in>set grp. length row = L"
  shows "sum_list (map (\<lambda>k. sum_list (map (\<lambda>row. length (filter id (valid_tokens eos (take c (drop (k * c) row))))) grp))
            [0..<max 1 ((ncols grp + c - 1) div c)])
         = sum_list (map (valid_count eos c) grp)"
proof (cases "grp = []")
  case True
  then show ?thesis by simp
next
  case False
  then have n: "ncols grp = L" using assms by (rule ncols_rect)
  let ?ks = "[0..<max 1 ((L + c - 1) div c)]"
  have "sum_list (map (\<lambda>k. sum_list (map (\<lambda>row. length (filter id (valid_tokens eos (take c (drop (k * c) row))))) grp)) ?ks)
        = sum_list (map (\<lambda>row. sum_list (map (\<lambda>k. length (filter id (valid_tokens eos (take c (drop (k * c) row))))) ?ks)) grp)"
    by (rule sum_list_swap)
  also have "\<dots> = sum_list (map (valid_count eos c) grp)"
  proof (rule arg_cong[where f = sum_list], rule map_cong[OF refl])
    fix row assume "row \<in> set grp"
    then have "length row = L" using assms by simp
    then show "sum_list (map (\<lambda>k. length (filter id (valid_tokens eos (take c (drop (k * c) row))))) ?ks)
               = valid_count eos c row"
      by (simp add: valid_count_def row_chunks_def comp_def valid_tokens_count)
  qed
  finally show ?thesis unfolding n .
qed

lemma score_group_weight:
  assumes fin: "\<forall>ch am r t. is_finite (score ch am r t)"
      and c: "0 < c"
      and cols: "ncols (take b (drop (i * b) attn_mask)) = ncols (take b (drop (i * b) samples))"
      and rect: "\<forall>row\<in>set (take b (drop (i * b) samples)). length row = L"
  shows "\<exists>s. score_group score eos c samples attn_mask b acc i = Inr s
           \<and> weight s = weight acc
               + real (sum_list (map (valid_count eos c) (take b (drop (i * b) samples))))"
proof -
  let ?G = "take b (drop (i * b) samples)"
  let ?A = "take b (drop (i * b) attn_mask)"
  let ?n = "max 1 ((ncols ?G + c - 1) div c)"
  let ?cs = "\<lambda>k. map (\<lambda>r. take c (drop (k * c) r)) ?G"
  let ?as = "\<lambda>k. map (\<lambda>r. take c (drop (k * c) r)) ?A"
  let ?g = "\<lambda>x. real (sum_list (map (\<lambda>row. length (filter id (valid_tokens eos row))) (fst x)))"
  have unfold: "score_group score eos c samples attn_mask b acc i
        = foldE (score_chunk score eos) (map (\<lambda>k. (?cs k, ?as k)) [0..<?n]) acc"
    by (simp only: score_group_def split_last_pos[OF c] cols bindE.simps zip_map_same)
  have step: "\<forall>x\<in>set (map (\<lambda>k. (?cs k, ?as k)) [0..<?n]). \<forall>acc.
                \<exists>s. score_chunk score eos acc x = Inr s \<and> weight s = weight acc + ?g x"
  proof (intro ballI allI)
    fix x acc
    show "\<exists>s. score_chunk score eos acc x = Inr s \<and> weight s = weight acc + ?g x"
      using score_chunk_weight[OF fin, of eos acc "fst x" "snd x"] by simp
  qed
  from foldE_weight[OF step, of acc] obtain s where
    s: "foldE (score_chunk score eos) (map (\<lambda>k. (?cs k, ?as k)) [0..<?n]) acc = Inr s"
    and ws: "weight s = weight acc + sum_list (map ?g (map (\<lambda>k. (?cs k, ?as k)) [0..<?n]))"
    by blast
  have "sum_list (map ?g (map (\<lambda>k. (?cs k, ?as k)) [0..<?n]))
        = real (sum_list (map (\<lambda>k. sum_list (map (\<lambda>row. length (filter id (valid_tokens eos (take c (drop (k * c) row))))) ?G)) [0..<?n]))"
    by (simp add: comp_def real_sum_list)
  also have "\<dots> = real (sum_list (map (valid_count eos c) ?G))"
    by (simp only: group_valid_count[OF rect])
  finally show ?thesis using s ws unfold by simp
qed

lemma sum_groups:
  "sum_list (map (\<lambda>i. sum_list (map h (take b (drop (i * b) xs)))) [0..<n])
   = (sum_list (map h (take (n * b) xs)) :: nat)"
proof (induction n)
  case 0
  show ?case by simp
next
  case (Suc n)
  have "Suc n * b = n * b + b" by simp
  then have "take (Suc n * b) xs = take (n * b) xs @ take b (drop (n * b) xs)"
    by (simp only: take_add)
  then show ?case using Suc by simp
qed

lemma ncols_group:
  assumes "length attn_mask = length samples"
      and "\<forall>row\<in>set samples. length row = L"
      and "\<forall>row\<in>set attn_mask. length row = L"
  shows "ncols (take b (drop k attn_mask)) = ncols (take b (drop k samples))"
proof -
  have eq: "length (take b (drop k attn_mask)) = length (take b (drop k samples))"
    using assms(1) by simp
  show ?thesis
  proof (cases "take b (drop k samples) = []")
    case True
    with eq have e: "take b (drop k attn_mask) = []" by (metis length_0_conv)
    show ?thesis unfolding e True by (simp add: ncols_def)
  next
    case False
    with eq have ne: "take b (drop k attn_mask) \<noteq> []" by (metis length_0_conv)
    have s: "\<forall>row\<in>set (take b (drop k samples)). length row = L"
      using assms(2) by (meson in_set_takeD in_set_dropD)
    have a: "\<forall>row\<in>set (take b (drop k attn_mask)). length row = L"
      using assms(3) by (meson in_set_takeD in_set_dropD)
    show ?thesis by (simp only: ncols_rect[OF False s] ncols_rect[OF ne a])
  qed
qed

lemma groups_weight:
  assumes fin: "\<forall>ch am r t. is_finite (score ch am r t)"
      and c: "0 < c"
      and la: "length attn_mask = length samples"
      and rs: "\<forall>row\<in>set samples. length row = L"
      and ra: "\<forall>row\<in>set attn_mask. length row = L"
  shows "\<exists>s. foldE (score_group score eos c samples attn_mask b) [0..<n] acc = Inr s
           \<and> weight s = weight acc + real (sum_list (map (valid_count eos c) (take (n * b) samples)))"
proof -
  let ?g = "\<lambda>i. real (sum_list (map (valid_count eos c) (take b (drop (i * b) samples))))"
  have step: "\<forall>i\<in>set [0..<n]. \<forall>acc.
      \<exists>s. score_group score eos c samples attn_mask b acc i = Inr s \<and> weight s = weight acc + ?g i"
  proof (intro ballI allI)
    fix i acc
    have rect: "\<forall>row\<in>set (take b (drop (i * b) samples)). length row = L"
      using rs by (meson in_set_takeD in_set_dropD)
    show "\<exists>s. score_group score eos c samples attn_mask b acc i = Inr s \<and> weight s = weight acc + ?g i"
      by (rule score_group_weight[OF fin c ncols_group[OF la rs ra] rect])
  qed
  from foldE_weight[OF step, of acc] obtain s where
    s: "foldE (score_group score eos c samples attn_mask b) [0..<n] acc = Inr s"
    and w: "weight s = weight acc + sum_list (map ?g [0..<n])" by blast
  have "sum_list (map ?g [0..<n])
        = real (sum_list (map (\<lambda>i. sum_list (map (valid_count eos c) (take b (drop (i * b) samples)))) [0..<n]))"
    by (rule real_sum_list)
  also have "\<dots> = real (sum_list (map (valid_count eos c) (take (n * b) samples)))"
    by (simp only: sum_groups)
  finally show ?thesis using s w by simp
qed

lemma batch_size_pos:
  "0 < B \<Longrightarrow> samples \<noteq> [] \<Longrightarrow> 0 < min B (int (length samples))"
  by (cases samples) simp_all

lemma num_batches_pos:
  assumes "0 < B" and "samples \<noteq> []"
  shows "1 \<le> int (length samples) div min B (int (length samples))"
proof -
  have "0 < min B (int (length samples))" using assms by (rule batch_size_pos)
  moreover have "min B (int (length samples)) \<le> int (length samples)" by simp
  ultimately have "0 < int (length samples) div min B (int (length samples))"
    by (simp only: pos_imp_zdiv_pos_iff)
  then show ?thesis by linarith
qed

lemma foldE_cong:
  "(\<And>x s. x \<in> set xs \<Longrightarrow> f s x = g s x) \<Longrightarrow> foldE f xs s = foldE g xs s"
proof (induction xs arbitrary: s)
  case Nil
  show ?case by simp
next
  case (Cons x xs)
  have "f s x = g s x" using Cons.prems by simp
  moreover have "foldE f xs = foldE g xs"
  proof
    fix s' show "foldE f xs s' = foldE g xs s'"
      using Cons.IH Cons.prems by simp
  qed
  ultimately show ?case by simp
qed

lemma group_of_take:
  assumes "(i + 1) * b \<le> m"
  shows "take b (drop (i * b) (take m xs)) = take b (drop (i * b) xs)"
proof -
  have "b \<le> m - i * b" using assms by simp
  then show ?thesis by (simp add: drop_take min_def)
qed

lemma score_group_take:
  assumes "(i + 1) * b \<le> m"
  shows "score_group score eos c (take m samples) (take m attn_mask) b acc i
         = score_group score eos c samples attn_mask b acc i"
  by (simp only: score_group_def group_of_take[OF assms])

lemma remainder_dropped:
  assumes "length samples = 5" and "eval_ppl_batch_size self = 2"
  shows "record_generative_perplexity score self (take 4 samples) (take 4 attn_mask) c
         = record_generative_perplexity score self samples attn_mask c"
proof -
  have g: "foldE (score_group score (eos_token_id self) c (take 4 samples) (take 4 attn_mask) 2)
             [0..<2] (gen_ppl self)
           = foldE (score_group score (eos_token_id self) c samples attn_mask 2)
             [0..<2] (gen_ppl self)"
  proof (rule foldE_cong)
    fix i :: nat and s assume "i \<in> set [0..<2]"
    then have "(i + 1) * 2 \<le> (4::nat)" by auto
    then show "score_group score (eos_token_id self) c (take 4 samples) (take 4 attn_mask) 2 s i
               = score_group score (eos_token_id self) c samples attn_mask 2 s i"
      by (rule score_group_take)
  qed
  show ?thesis
    using assms g by (simp add: record_generative_perplexity_def Let_def)
qed

text \<open>
  Claim C4, as the code has it. With a positive batch size \<open>B\<close> and \<open>N > 0\<close> samples
  (token rows of one length, an attention mask of the same shape, a positive context
  size, finite losses), the call scores the first \<open>floor(N / b)\<close> groups of
  \<open>b = min(B, N)\<close> samples and nothing else: it does not raise, it changes only
  \<open>gen_ppl\<close>, and the accumulated weight grows by the number of positions that the
  validity mask keeps in those \<open>floor(N / b) * b\<close> samples. These are, in each chunk
  of a sample, the positions from the second one on whose token is not the end token
  or is the first end token of the chunk; the attention mask plays no part. With
  \<open>N = 5\<close> and \<open>B = 2\<close> these are \<open>2\<close> groups, the first \<open>4\<close> samples: the
  call ends as the call on the first \<open>4\<close> samples alone does.
\<close>

theorem record_generative_perplexity_weight:
  assumes "0 < eval_ppl_batch_size self" and "samples \<noteq> []" and "0 < c"
      and "length attn_mask = length samples"
      and "\<forall>row\<in>set samples. length row = L"
      and "\<forall>row\<in>set attn_mask. length row = L"
      and "\<forall>ch am r t. is_finite (score ch am r t)"
  shows "\<exists>acc. record_generative_perplexity score self samples attn_mask c
                 = Inr (self\<lparr>gen_ppl := acc\<rparr>)
          \<and> weight acc = weight (gen_ppl self)
              + real (sum_list (map (valid_count (eos_token_id self) c)
                  (take (nat (int (length samples)
                                div min (eval_ppl_batch_size self) (int (length samples)))
                         * nat (min (eval_ppl_batch_size self) (int (length samples))))
                     samples)))
          \<and> (length samples = 5 \<and> eval_ppl_batch_size self = 2 \<longrightarrow>
                int (length samples) div min (eval_ppl_batch_size self) (int (length samples)) = 2
                \<and> weight acc = weight (gen_ppl self)
                    + real (sum_list (map (valid_count (eos_token_id self) c) (take 4 samples)))
                \<and> record_generative_perplexity score self (take 4 samples) (take 4 attn_mask) c
                    = Inr (self\<lparr>gen_ppl := acc\<rparr>))"
proof -
  let ?b = "min (eval_ppl_batch_size self) (int (length samples))"
  let ?nb = "int (length samples) div ?b"
  have b: "?b \<noteq> 0" using batch_size_pos[OF assms(1,2)] by (metis less_irrefl)
  from groups_weight[OF assms(7,3,4,5,6), of "eos_token_id self" "nat ?b" "nat ?nb" "gen_ppl self"]
  obtain acc where
    run: "foldE (score_group score (eos_token_id self) c samples attn_mask (nat ?b))
            [0..<nat ?nb] (gen_ppl self) = Inr acc"
    and w: "weight acc = weight (gen_ppl self)
              + real (sum_list (map (valid_count (eos_token_id self) c)
                        (take (nat ?nb * nat ?b) samples)))"
    by blast
  have res: "record_generative_perplexity score self samples attn_mask c = Inr (self\<lparr>gen_ppl := acc\<rparr>)"
    using b run by (simp add: record_generative_perplexity_def Let_def)
  have five: "?nb = 2 \<and> weight acc = weight (gen_ppl self)
                + real (sum_list (map (valid_count (eos_token_id self) c) (take 4 samples)))
              \<and> record_generative_perplexity score self (take 4 samples) (take 4 attn_mask) c
                    = Inr (self\<lparr>gen_ppl := acc\<rparr>)"
    if "length samples = 5 \<and> eval_ppl_batch_size self = 2"
  proof -
    have "record_generative_perplexity score self (take 4 samples) (take 4 attn_mask) c
          = Inr (self\<lparr>gen_ppl := acc\<rparr>)"
      using that res by (simp only: remainder_dropped)
    then show ?thesis using that w by simp
  qed
  show ?thesis using res w five by blast
qed

text \<open>
  Claim C4, witness of the amended claim: five samples of four tokens, the end token \<open>0\<close>, a batch size
  of \<open>2\<close> and a context of \<open>3\<close>. The mask keeps \<open>2\<close>, \<open>1\<close>, \<open>2\<close>, \<open>0\<close> and \<open>2\<close>
  positions of the five samples; the weight grows by \<open>5\<close>, the count of the first
  four.
\<close>

theorem record_generative_perplexity_weight_witness:
  "map (valid_count 0 3) [[5, 6, 0, 0], [5, 0, 0, 0], [1, 2, 3, 4], [0, 0, 0, 0], [7, 7, 7, 7]]
     = [2, 1, 2, 0, 2]
   \<and> (\<exists>acc. record_generative_perplexity (\<lambda>ch am r t. Fin 1) (Metrics_init 2 0)
               [[5, 6, 0, 0], [5, 0, 0, 0], [1, 2, 3, 4], [0, 0, 0, 0], [7, 7, 7, 7]]
               [[1, 1, 1, 1], [1, 1, 1, 1], [1, 1, 1, 1], [1, 1, 1, 1], [1, 1, 1, 1]] 3
             = Inr ((Metrics_init 2 0)\<lparr>gen_ppl := acc\<rparr>)
           \<and> record_generative_perplexity (\<lambda>ch am r t. Fin 1) (Metrics_init 2 0)
               [[5, 6, 0, 0], [5, 0, 0, 0], [1, 2, 3, 4], [0, 0, 0, 0]]
               [[1, 1, 1, 1], [1, 1, 1, 1], [1, 1, 1, 1], [1, 1, 1, 1]] 3
             = Inr ((Metrics_init 2 0)\<lparr>gen_ppl := acc\<rparr>)
           \<and> weight acc = 5)"
proof -
  let ?samples = "[[5, 6, 0, 0], [5, 0, 0, 0], [1, 2, 3, 4], [0, 0, 0, 0], [7, 7, 7, 7::int]]"
  let ?attn = "[[1, 1, 1, 1], [1, 1, 1, 1], [1, 1, 1, 1], [1, 1, 1, 1], [1, 1, 1, 1::int]]"
  let ?score = "(\<lambda>ch am r t. Fin 1) :: scorer"
  have counts: "map (valid_count 0 3) ?samples = [2, 1, 2, 0, 2]"
    by code_simp
  have h1: "0 < eval_ppl_batch_size (Metrics_init 2 0)" by (simp add: Metrics_init_def)
  have h2: "?samples \<noteq> []" by simp
  have h3: "0 < (3::nat)" by simp
  have h4: "length ?attn = length ?samples" by simp
  have h5: "\<forall>row\<in>set ?samples. length row = 4" by simp
  have h6: "\<forall>row\<in>set ?attn. length row = 4" by simp
  have h7: "\<forall>ch am r t. is_finite (?score ch am r t)" by simp
  from record_generative_perplexity_weight[OF h1 h2 h3 h4 h5 h6 h7]
  obtain acc where
    res: "record_generative_perplexity ?score (Metrics_init 2 0) ?samples ?attn 3
            = Inr ((Metrics_init 2 0)\<lparr>gen_ppl := acc\<rparr>)"
    and five: "length ?samples = 5 \<and> eval_ppl_batch_size (Metrics_init 2 0) = 2 \<longrightarrow>
                int (length ?samples) div min (eval_ppl_batch_size (Metrics_init 2 0)) (int (length ?samples)) = 2
                \<and> weight acc = weight (gen_ppl (Metrics_init 2 0))
                    + real (sum_list (map (valid_count (eos_token_id (Metrics_init 2 0)) 3) (take 4 ?samples)))
                \<and> record_generative_perplexity ?score (Metrics_init 2 0) (take 4 ?samples) (take 4 ?attn) 3
                    = Inr ((Metrics_init 2 0)\<lparr>gen_ppl := acc\<rparr>)"
    by blast
  have pre: "length ?samples = 5 \<and> eval_ppl_batch_size (Metrics_init 2 0) = 2"
    by (simp add: Metrics_init_def)
  have t4: "map (valid_count 0 3) (take 4 ?samples) = [2, 1, 2, 0]"
    by code_simp
  have "weight acc = weight (gen_ppl (Metrics_init 2 0))
          + real (sum_list (map (valid_count (eos_token_id (Metrics_init 2 0)) 3) (take 4 ?samples)))"
    using five pre by blast
  also have "\<dots> = 5"
    by (simp only: Metrics_init_def metrics.simps accumulator.simps t4) simp
  finally have wt: "weight acc = 5" .
  have "record_generative_perplexity ?score (Metrics_init 2 0) (take 4 ?samples) (take 4 ?attn) 3
          = Inr ((Metrics_init 2 0)\<lparr>gen_ppl := acc\<rparr>)"
    using five pre by blast
  then have four: "record_generative_perplexity ?score (Metrics_init 2 0)
               [[5, 6, 0, 0], [5, 0, 0, 0], [1, 2, 3, 4], [0, 0, 0, 0]]
               [[1, 1, 1, 1], [1, 1, 1, 1], [1, 1, 1, 1], [1, 1, 1, 1]] 3
             = Inr ((Metrics_init 2 0)\<lparr>gen_ppl := acc\<rparr>)"
    by (simp add: numeral_eq_Suc)
  from res four wt counts show ?thesis by blast
qed

text \<open>
  Claim C4, counterexample: five samples \<open>[5, 6, 9, 9]\<close> whose last two tokens are
  padding with the pad token \<open>9\<close> (attention mask \<open>0\<close>), the end token \<open>0\<close>, a
  batch size of \<open>2\<close> and a context of \<open>1024\<close>. The first four samples hold \<open>8\<close>
  positions that are not padding, and the weight grows by \<open>12\<close>: the padding after
  the first token of each sample is counted.
\<close>

theorem padding_counted_counterexample:
  "record_generative_perplexity (\<lambda>ch am r t. Fin 1) (Metrics_init 2 0)
      [[5, 6, 9, 9], [5, 6, 9, 9], [5, 6, 9, 9], [5, 6, 9, 9], [5, 6, 9, 9]]
      [[1, 1, 0, 0], [1, 1, 0, 0], [1, 1, 0, 0], [1, 1, 0, 0], [1, 1, 0, 0]] 1024
     = Inr ((Metrics_init 2 0)\<lparr>gen_ppl := \<lparr>mean_value = 12, weight = 12\<rparr>\<rparr>)
   \<and> sum_list (map2 (claimed_valid_count 0)
        (take 4 [[5, 6, 9, 9], [5, 6, 9, 9], [5, 6, 9, 9], [5, 6, 9, 9], [5, 6, 9, 9]])
        (take 4 [[1, 1, 0, 0], [1, 1, 0, 0], [1, 1, 0, 0], [1, 1, 0, 0], [1, 1, 0, 0]])) = 8
   \<and> weight \<lparr>mean_value = 12, weight = 12\<rparr> \<noteq> weight (gen_ppl (Metrics_init 2 0)) + real 8"
proof -
  have a: "record_generative_perplexity (\<lambda>ch am r t. Fin 1) (Metrics_init 2 0)
      [[5, 6, 9, 9], [5, 6, 9, 9], [5, 6, 9, 9], [5, 6, 9, 9], [5, 6, 9, 9]]
      [[1, 1, 0, 0], [1, 1, 0, 0], [1, 1, 0, 0], [1, 1, 0, 0], [1, 1, 0, 0]] 1024
     = Inr ((Metrics_init 2 0)\<lparr>gen_ppl := \<lparr>mean_value = 12, weight = 12\<rparr>\<rparr>)"
    by code_simp
  have b: "sum_list (map2 (claimed_valid_count 0)
        (take 4 [[5, 6, 9, 9], [5, 6, 9, 9], [5, 6, 9, 9], [5, 6, 9, 9], [5, 6, 9, 9]])
        (take 4 [[1, 1, 0, 0], [1, 1, 0, 0], [1, 1, 0, 0], [1, 1, 0, 0], [1, 1, 0, 0]])) = 8"
    by code_simp
  have c: "weight \<lparr>mean_value = 12, weight = 12\<rparr> \<noteq> weight (gen_ppl (Metrics_init 2 0)) + real 8"
    by (simp add: Metrics_init_def)
  show ?thesis by (intro conjI a b c)
qed

text \<open>
  Claim C5, at the input where no full group can be formed. With a non-negative
  batch size and no sample the batch size \<open>min(B, 0)\<close> is \<open>0\<close> and the floor
  division of line 187 raises. With a positive batch size and at least one sample
  there is at least one full group.
\<close>

theorem record_generative_perplexity_no_samples:
  "(0 \<le> eval_ppl_batch_size self \<longrightarrow>
      record_generative_perplexity score self [] [] c = Inl ZeroDivisionError)
   \<and> (0 < eval_ppl_batch_size self \<and> samples \<noteq> [] \<longrightarrow>
        1 \<le> int (length samples) div min (eval_ppl_batch_size self) (int (length samples)))"
proof -
  have a: "record_generative_perplexity score self [] [] c = Inl ZeroDivisionError"
    if "0 \<le> eval_ppl_batch_size self"
    using that by (simp add: record_generative_perplexity_def Let_def min_def)
  have b: "1 \<le> int (length samples) div min (eval_ppl_batch_size self) (int (length samples))"
    if "0 < eval_ppl_batch_size self \<and> samples \<noteq> []"
    using that num_batches_pos by blast
  show ?thesis using a b by blast
qed

text \<open>
  Claim C5, failing input: a fresh metrics object with the batch size \<open>2\<close> and an
  empty batch of samples.
\<close>

theorem record_generative_perplexity_no_samples_witness:
  "0 \<le> eval_ppl_batch_size (Metrics_init 2 0)
   \<and> record_generative_perplexity (\<lambda>ch am r t. Fin 1) (Metrics_init 2 0) [] [] 1024
       = Inl ZeroDivisionError
   \<and> 1 \<le> int (length [[5, 6::int]]) div min (eval_ppl_batch_size (Metrics_init 2 0)) (int (length [[5, 6::int]]))"
proof -
  have h: "0 \<le> eval_ppl_batch_size (Metrics_init 2 0)" by (simp add: Metrics_init_def)
  have g: "0 < eval_ppl_batch_size (Metrics_init 2 0) \<and> [[5, 6::int]] \<noteq> []"
    by (simp add: Metrics_init_def)
  note th = record_generative_perplexity_no_samples[of "Metrics_init 2 0" "\<lambda>ch am r t. Fin 1" 1024 "[[5, 6::int]]"]
  show ?thesis
    by (intro conjI h th[THEN conjunct1, rule_format, OF h] th[THEN conjunct2, rule_format, OF g])
qed

section \<open>Properties of the sample entropy\<close>

lemma sum_list_remdups: "sum_list (map f (remdups xs)) = sum f (set xs)"
  using sum_list_distinct_conv_sum_set[of "remdups xs" f] by simp

lemma sum_unique_counts: "sum_list (unique_counts sample) = length sample"
  by (simp add: unique_counts_def sum_list_remdups sum_count_set)

lemma fv_foldl_Fin: "foldl fv_add (Fin a) (map Fin xs) = Fin (a + sum_list xs)"
  by (induction xs arbitrary: a) (simp_all add: add.assoc)

lemma fv_sum_Fin: "fv_sum (map Fin xs) = Fin (sum_list xs)"
  by (simp add: fv_sum_def fv_foldl_Fin)

lemma entr_count:
  assumes "v \<in> set sample"
  shows "entr (real (count_list sample v) / real (length sample))
         = Fin (- (real (count_list sample v) / real (length sample))
                  * ln (real (count_list sample v) / real (length sample)))"
proof -
  have "0 < count_list sample v"
    using assms by (simp add: count_list_0_iff zero_less_iff_neq_zero)
  moreover have "0 < length sample" using assms by (cases sample) auto
  ultimately have "0 < real (count_list sample v) / real (length sample)" by simp
  then show ?thesis by (simp add: entr_def)
qed

lemma entropy_shannon: "entropy sample = Fin (shannon_entropy sample)"
proof -
  let ?p = "\<lambda>v. real (count_list sample v) / real (length sample)"
  have "entropy sample = fv_sum (map (\<lambda>v. entr (?p v)) (remdups sample))"
    by (simp add: entropy_def Let_def sum_unique_counts) (simp add: unique_counts_def comp_def)
  also have "map (\<lambda>v. entr (?p v)) (remdups sample)
             = map Fin (map (\<lambda>v. - ?p v * ln (?p v)) (remdups sample))"
    by (simp add: entr_count)
  also have "fv_sum \<dots> = Fin (sum_list (map (\<lambda>v. - ?p v * ln (?p v)) (remdups sample)))"
    by (rule fv_sum_Fin)
  also have "sum_list (map (\<lambda>v. - ?p v * ln (?p v)) (remdups sample))
             = (\<Sum>v\<in>set sample. - ?p v * ln (?p v))"
    by (rule sum_list_remdups)
  also have "\<dots> = shannon_entropy sample"
    by (simp add: shannon_entropy_def sum_negf)
  finally show ?thesis .
qed

lemma MeanMetric_update_Fin:
  "MeanMetric_update self (Fin x)
   = Inr (self\<lparr>mean_value := mean_value self + x, weight := weight self + 1\<rparr>)"
  by (simp add: MeanMetric_update_def cast_and_nan_check_input_def List.map_filter_def)

lemma record_entropy_Cons:
  "record_entropy self (sample # tokens)
   = bindE (MeanMetric_update (sample_entropy self) (entropy sample))
       (\<lambda>a. record_entropy (self\<lparr>sample_entropy := a\<rparr>) tokens)"
  by (cases "MeanMetric_update (sample_entropy self) (entropy sample)")
     (simp_all add: record_entropy_def)

lemma record_entropy_sums:
  "record_entropy self tokens
   = Inr (self\<lparr>sample_entropy := (sample_entropy self)
            \<lparr>mean_value := mean_value (sample_entropy self) + sum_list (map shannon_entropy tokens),
             weight := weight (sample_entropy self) + real (length tokens)\<rparr>\<rparr>)"
proof (induction tokens arbitrary: self)
  case Nil
  show ?case by (simp add: record_entropy_def)
next
  case (Cons sample tokens)
  show ?case
    by (simp add: record_entropy_Cons entropy_shannon MeanMetric_update_Fin Cons add.assoc)
qed

lemma shannon_entropy_constant:
  assumes "\<forall>t\<in>set sample. t = a"
  shows "shannon_entropy sample = 0"
proof -
  let ?t = "\<lambda>v. (real (count_list sample v) / real (length sample))
                 * ln (real (count_list sample v) / real (length sample))"
  have "?t v = 0" if "v \<in> set sample" for v
  proof -
    have "filter ((=) v) sample = sample"
    proof (rule filter_True, rule ballI)
      fix x assume "x \<in> set sample"
      with assms that have "x = a" and "v = a" by blast+
      then show "v = x" by simp
    qed
    then have "count_list sample v = length sample"
      by (simp add: count_list_eq_length_filter)
    moreover have "0 < length sample" using that by (cases sample) auto
    ultimately show ?thesis by simp
  qed
  then have "(\<Sum>v\<in>set sample. ?t v) = 0"
    by (intro sum.neutral ballI)
  then show ?thesis unfolding shannon_entropy_def by (simp only: neg_equal_0_iff_equal)
qed

lemma shannon_entropy_uniform:
  assumes "sample \<noteq> []" and "\<forall>v\<in>set sample. count_list sample v = m"
  shows "shannon_entropy sample = ln (real (card (set sample)))"
proof -
  let ?k = "card (set sample)"
  have k: "0 < ?k" using assms(1) by (simp add: card_gt_0_iff)
  obtain v where v: "v \<in> set sample" using assms(1) by (cases sample) auto
  then have m: "0 < m"
    using assms(2) by (metis count_list_0_iff zero_less_iff_neq_zero)
  have "length sample = sum (count_list sample) (set sample)"
    by (simp add: sum_count_set)
  also have "\<dots> = ?k * m" using assms(2) by simp
  finally have len: "length sample = ?k * m" .
  have p: "real m / real (length sample) = 1 / real ?k"
    using m k by (simp add: len)
  have "shannon_entropy sample = - (\<Sum>v\<in>set sample. (1 / real ?k) * ln (1 / real ?k))"
    using assms(2) by (simp add: shannon_entropy_def p)
  also have "\<dots> = - (real ?k * ((1 / real ?k) * ln (1 / real ?k)))"
    by simp
  also have "\<dots> = - ln (1 / real ?k)" using k by simp
  also have "\<dots> = ln (real ?k)" using k by (simp add: ln_div)
  finally show ?thesis .
qed

text \<open>
  Claim C8: the entropy that \<open>record_entropy\<close> computes for a sample is the Shannon
  entropy, in nats, of the empirical distribution of its tokens. Each sample is one
  update of the running mean: the call adds the entropies of the samples to the
  running sum and their number to the running count, and does not raise. A sample
  whose tokens are all the same has the entropy \<open>0\<close>; a sample whose distinct tokens
  all occur equally often has the entropy \<open>ln k\<close>, for \<open>k\<close> distinct tokens.
\<close>

theorem record_entropy_shannon:
  "entropy sample = Fin (shannon_entropy sample)
   \<and> record_entropy self tokens
       = Inr (self\<lparr>sample_entropy := (sample_entropy self)
                \<lparr>mean_value := mean_value (sample_entropy self)
                                 + sum_list (map shannon_entropy tokens),
                 weight := weight (sample_entropy self) + real (length tokens)\<rparr>\<rparr>)
   \<and> ((\<forall>t\<in>set sample. t = a) \<longrightarrow> entropy sample = Fin 0)
   \<and> (sample \<noteq> [] \<and> (\<forall>v\<in>set sample. count_list sample v = m) \<longrightarrow>
         entropy sample = Fin (ln (real (card (set sample)))))"
proof -
  have c: "entropy sample = Fin 0" if "\<forall>t\<in>set sample. t = a"
    using shannon_entropy_constant[OF that] by (simp add: entropy_shannon)
  have d: "entropy sample = Fin (ln (real (card (set sample))))"
    if "sample \<noteq> [] \<and> (\<forall>v\<in>set sample. count_list sample v = m)"
    using that shannon_entropy_uniform[of sample m] by (simp add: entropy_shannon)
  show ?thesis using entropy_shannon record_entropy_sums c d by blast
qed

text \<open>
  Claim C8, witness: the sample \<open>[7, 7, 7]\<close> has the entropy \<open>0\<close>, the sample
  \<open>[1, 2, 1, 2]\<close> has the entropy \<open>ln 2\<close>, and recording the two adds \<open>ln 2\<close> to
  the running sum and \<open>2\<close> to the running count.
\<close>

theorem record_entropy_shannon_witness:
  "entropy [7, 7, 7] = Fin 0
   \<and> entropy [1, 2, 1, 2] = Fin (ln 2)
   \<and> record_entropy (Metrics_init 2 0) [[7, 7, 7], [1, 2, 1, 2]]
       = Inr ((Metrics_init 2 0)\<lparr>sample_entropy := \<lparr>mean_value = ln 2, weight = 2\<rparr>\<rparr>)"
proof -
  have h1: "\<forall>t\<in>set [7, 7, 7::int]. t = 7" by simp
  have h2: "[1, 2, 1, 2::int] \<noteq> [] \<and> (\<forall>v\<in>set [1, 2, 1, 2::int]. count_list [1, 2, 1, 2] v = 2)"
    by simp
  note t1 = record_entropy_shannon[of "[7, 7, 7]" "Metrics_init 2 0" "[[7, 7, 7], [1, 2, 1, 2]]" 7 0]
  note t2 = record_entropy_shannon[of "[1, 2, 1, 2]" "Metrics_init 2 0" "[]" 0 2]
  have e1: "entropy [7, 7, 7] = Fin 0"
    by (rule t1[THEN conjunct2, THEN conjunct2, THEN conjunct1, THEN mp, OF h1])
  have "entropy [1, 2, 1, 2] = Fin (ln (real (card (set [1, 2, 1, 2::int]))))"
    by (rule t2[THEN conjunct2, THEN conjunct2, THEN conjunct2, THEN mp, OF h2])
  moreover have "card (set [1, 2, 1, 2::int]) = 2"
  proof -
    have "set [1, 2, 1, 2::int] = {1, 2}" by auto
    then show ?thesis by simp
  qed
  ultimately have e2: "entropy [1, 2, 1, 2] = Fin (ln 2)" by simp
  have s1: "shannon_entropy [7, 7, 7] = 0"
    using e1 t1[THEN conjunct1] by simp
  have s2: "shannon_entropy [1, 2, 1, 2] = ln 2"
    using e2 t2[THEN conjunct1] by simp
  have "record_entropy (Metrics_init 2 0) [[7, 7, 7], [1, 2, 1, 2]]
       = Inr ((Metrics_init 2 0)\<lparr>sample_entropy := \<lparr>mean_value = ln 2, weight = 2\<rparr>\<rparr>)"
    by (simp only: t1[THEN conjunct2, THEN conjunct1]) (simp add: s1 s2 Metrics_init_def)
  with e1 e2 show ?thesis by blast
qed

end
